theory Spec2Isabelle
  imports Complex_Main "HOL-Library.AList" "HOL-Library.Sublist"
begin

section \<open>The cost alerter of \<^verbatim>\<open>src/lambda/cost_alerter.py\<close>\<close>

text \<open>
  The handler reads its configuration from the process environment, asks Cost Explorer for
  the month's spending, and reacts by tier: above the critical threshold it sends a warning
  and calls \<^verbatim>\<open>execute_resource_nuke\<close>; above the alert threshold it sends an alert;
  otherwise it optionally sends a daily summary.

  Scope of the model.
  \<^item> Amounts are Python floats in the source and \<open>real\<close> here: the source only adds,
    compares and prints them, and finite floats compare as their values do. Not-a-number
    and the infinities, which \<^verbatim>\<open>float\<close> also accepts, are left out. The builtins that
    depend on the binary representation (\<^verbatim>\<open>float(s)\<close>, \<^verbatim>\<open>str(x)\<close>,
    \<^verbatim>\<open>f"{x:.2f}"\<close>, \<^verbatim>\<open>round(x, 2)\<close>) are fields of the platform record.
  \<^item> Every call that leaves the process (AWS SDK, HTTP) is an operation on an abstract
    world \<open>'w\<close>: it returns a result and the next world, so an answer may depend on
    everything that was done before. An AWS call returns \<open>Inr\<close> of its response or
    \<open>Inl\<close> of the text of a \<^verbatim>\<open>ClientError\<close>; \<^verbatim>\<open>urlopen\<close> returns \<open>Inr\<close> of the HTTP
    status or \<open>Inl\<close> of the reason of a \<^verbatim>\<open>URLError\<close>. These are the failures the source
    handles; no other exception class of the libraries is modelled.
  \<^item> Every such call, and every read of an environment variable, is appended to a trace
    kept in the state, with the result it had. The properties of what a run did are
    statements about this trace.
  \<^item> \<^verbatim>\<open>print\<close> output is left out.
\<close>

subsection \<open>Strings\<close>

definition nl :: string where
  "nl = [CHR 0x0A]"

text \<open>\<^verbatim>\<open>sep.join(xs)\<close>\<close>

fun str_join :: "string \<Rightarrow> string list \<Rightarrow> string" where
  "str_join sep [] = []"
| "str_join sep [x] = x"
| "str_join sep (x # y # ys) = x @ sep @ str_join sep (y # ys)"

text \<open>
  \<^verbatim>\<open>s.lower()\<close> on the ASCII letters; the source compares the result with \<^verbatim>\<open>'true'\<close> only,
  and no character outside ASCII lowers to one of \<^verbatim>\<open>t r u e\<close>.
\<close>

definition lower_char :: "char \<Rightarrow> char" where
  "lower_char c =
     (case map_of (zip ''ABCDEFGHIJKLMNOPQRSTUVWXYZ'' ''abcdefghijklmnopqrstuvwxyz'') c of
        Some d \<Rightarrow> d
      | None \<Rightarrow> c)"

definition lower :: "string \<Rightarrow> string" where
  "lower s = map lower_char s"

text \<open>\<^verbatim>\<open>str(n)\<close> of a non-negative integer (a \<^verbatim>\<open>len\<close>).\<close>

definition digit_char :: "nat \<Rightarrow> char" where
  "digit_char d = ''0123456789'' ! d"

function str_nat :: "nat \<Rightarrow> string" where
  "str_nat n = (if n < 10 then [digit_char n] else str_nat (n div 10) @ [digit_char (n mod 10)])"
  by pat_completeness auto
termination
  by (relation "measure (\<lambda>n. n)") auto

declare str_nat.simps [simp del]

text \<open>\<^verbatim>\<open>xs[:n]\<close>: a negative \<open>n\<close> counts from the end.\<close>

definition slice_to :: "int \<Rightarrow> 'a list \<Rightarrow> 'a list" where
  "slice_to n xs = (if 0 \<le> n then take (nat n) xs else take (length xs - nat (- n)) xs)"

subsection \<open>Data\<close>

datatype exn = ClientError string | ValueError string

record http_request =
  url :: string
  headers :: "(string \<times> string) list"
  data :: string

record db_instance =
  DBInstanceIdentifier :: string
  DBInstanceStatus :: string

record cost_info =
  total_cost :: real
  service_breakdown :: "(string \<times> real) list"
  currency :: string
  period :: string

text \<open>The three dictionaries \<^verbatim>\<open>execute_resource_nuke\<close> returns, by their \<^verbatim>\<open>'status'\<close>.\<close>

datatype nuke_result =
    Skipped string
  | DryRun "string list"
  | Executed "string list" "string list"

fun status :: "nuke_result \<Rightarrow> string" where
  "status (Skipped reason) = ''skipped''"
| "status (DryRun resources) = ''dry_run''"
| "status (Executed terminated errors) = ''executed''"

text \<open>The dictionary \<^verbatim>\<open>lambda_handler\<close> returns; the key \<^verbatim>\<open>'nuke_result'\<close> may be absent.\<close>

record response =
  statusCode :: int
  current_cost :: real
  alert_threshold :: real
  critical_threshold :: real
  forecasted_cost :: "real option"
  alert_sent :: bool
  nuke_triggered :: bool
  nuke_result :: "nuke_result option"

subsection \<open>The world, the trace and the state\<close>

datatype event =
    GetEnv string
  | GetCostAndUsage string string "string + (string \<times> real) list list"
  | GetCostForecast string string "string + real"
  | DescribeInstances "string list" "string + string list list"
  | DescribeDbInstances "string + db_instance list"
  | DescribeNatGateways "string list" "string + string list"
  | ListFunctions "string + string list"
  | ListBuckets "string + string list"
  | StopInstances "string list" "string + unit"
  | DeleteNatGateway string "string + unit"
  | StopDbInstance string "string + unit"
  | UrlOpen http_request "string + int"

record 'w platform =
  environ :: "string \<rightharpoonup> string"
  py_float :: "string \<Rightarrow> real option"
  py_str :: "real \<Rightarrow> string"
  py_fmt2 :: "real \<Rightarrow> string"
  py_round2 :: "real \<Rightarrow> real"
  utc_dates :: "'w \<Rightarrow> string \<times> string \<times> string"
  ce_get_cost_and_usage :: "string \<Rightarrow> string \<Rightarrow> 'w \<Rightarrow> (string + (string \<times> real) list list) \<times> 'w"
  ce_get_cost_forecast :: "string \<Rightarrow> string \<Rightarrow> 'w \<Rightarrow> (string + real) \<times> 'w"
  ec2_describe_instances :: "string list \<Rightarrow> 'w \<Rightarrow> (string + string list list) \<times> 'w"
  rds_describe_db_instances :: "'w \<Rightarrow> (string + db_instance list) \<times> 'w"
  ec2_describe_nat_gateways :: "string list \<Rightarrow> 'w \<Rightarrow> (string + string list) \<times> 'w"
  lambda_list_functions :: "'w \<Rightarrow> (string + string list) \<times> 'w"
  s3_list_buckets :: "'w \<Rightarrow> (string + string list) \<times> 'w"
  ec2_stop_instances :: "string list \<Rightarrow> 'w \<Rightarrow> (string + unit) \<times> 'w"
  ec2_delete_nat_gateway :: "string \<Rightarrow> 'w \<Rightarrow> (string + unit) \<times> 'w"
  rds_stop_db_instance :: "string \<Rightarrow> 'w \<Rightarrow> (string + unit) \<times> 'w"
  urlopen :: "http_request \<Rightarrow> 'w \<Rightarrow> (string + int) \<times> 'w"

record 'w state =
  world :: 'w
  trace :: "event list"

text \<open>One call to the outside: run the operation on the world and record it with its result.\<close>

definition call :: "('w \<Rightarrow> 'r \<times> 'w) \<Rightarrow> ('r \<Rightarrow> event) \<Rightarrow> 'w state \<Rightarrow> 'r \<times> 'w state" where
  "call operation ev s =
     (case operation (world s) of
        (r, w) \<Rightarrow> (r, s\<lparr>world := w, trace := trace s @ [ev r]\<rparr>))"

text \<open>\<^verbatim>\<open>os.environ.get(key, default)\<close>\<close>

definition environ_value :: "'w platform \<Rightarrow> string \<Rightarrow> string \<Rightarrow> string" where
  "environ_value P key dflt = (case environ P key of None \<Rightarrow> dflt | Some v \<Rightarrow> v)"

definition environ_get :: "'w platform \<Rightarrow> string \<Rightarrow> string \<Rightarrow> 'w state \<Rightarrow> string \<times> 'w state" where
  "environ_get P key dflt s = (environ_value P key dflt, s\<lparr>trace := trace s @ [GetEnv key]\<rparr>)"

subsection \<open>\<^verbatim>\<open>format_top_services\<close>\<close>

text \<open>
  The dictionary \<^verbatim>\<open>service_breakdown\<close> is an association list in insertion order, the order
  \<^verbatim>\<open>items()\<close> has. \<^verbatim>\<open>sorted(..., reverse=True)\<close> is stable, as \<open>sort_key\<close> on the negated
  cost is. \<open>listed_services\<close> are the entries the loop writes a line for.
\<close>

definition sorted_services :: "(string \<times> real) list \<Rightarrow> int \<Rightarrow> (string \<times> real) list" where
  "sorted_services breakdown top_n =
     slice_to top_n (sort_key (\<lambda>x. - snd x) breakdown)"

definition listed_services :: "(string \<times> real) list \<Rightarrow> int \<Rightarrow> (string \<times> real) list" where
  "listed_services breakdown top_n =
     filter (\<lambda>(service, cost). cost > 0.01) (sorted_services breakdown top_n)"

definition format_top_services :: "'w platform \<Rightarrow> (string \<times> real) list \<Rightarrow> int \<Rightarrow> string" where
  "format_top_services P breakdown top_n =
     (let lines = map (\<lambda>(service, cost). ''  - '' @ service @ '': $'' @ py_fmt2 P cost)
                      (listed_services breakdown top_n)
      in if lines \<noteq> [] then str_join nl lines else ''  (No significant costs yet)'')"

subsection \<open>\<^verbatim>\<open>get_current_month_costs\<close> and \<^verbatim>\<open>get_forecasted_month_end_cost\<close>\<close>

text \<open>
  \<open>utc_dates\<close> gives the three \<^verbatim>\<open>strftime('%Y-%m-%d')\<close> texts the two functions compute
  from \<^verbatim>\<open>datetime.utcnow()\<close>: the first day of the month, tomorrow, and the first day of
  the next month. The response of Cost Explorer is the list of \<^verbatim>\<open>ResultsByTime\<close>, each a
  list of groups (service name, amount). A \<^verbatim>\<open>ClientError\<close> of the cost query is raised
  again; one of the forecast gives \<^verbatim>\<open>None\<close>.
\<close>

definition get_current_month_costs :: "'w platform \<Rightarrow> 'w state \<Rightarrow> (exn + cost_info) \<times> 'w state" where
  "get_current_month_costs P s =
     (case utc_dates P (world s) of (start_of_month, end_date, next_month) \<Rightarrow>
        (case call (ce_get_cost_and_usage P start_of_month end_date)
                   (GetCostAndUsage start_of_month end_date) s of
           (Inl e, s1) \<Rightarrow> (Inl (ClientError e), s1)
         | (Inr results, s1) \<Rightarrow>
             (let groups = concat results;
                  total = foldl (\<lambda>t (service_name, cost). t + cost) 0 groups;
                  breakdown = foldl (\<lambda>d (service_name, cost). AList.update service_name cost d) [] groups
              in (Inr \<lparr>total_cost = py_round2 P total,
                       service_breakdown = breakdown,
                       currency = ''USD'',
                       period = start_of_month @ '' to '' @ end_date\<rparr>, s1))))"

definition get_forecasted_month_end_cost :: "'w platform \<Rightarrow> 'w state \<Rightarrow> real option \<times> 'w state" where
  "get_forecasted_month_end_cost P s =
     (case utc_dates P (world s) of (start_of_month, start_date, end_date) \<Rightarrow>
        (case call (ce_get_cost_forecast P start_date end_date)
                   (GetCostForecast start_date end_date) s of
           (Inl e, s1) \<Rightarrow> (None, s1)
         | (Inr forecast, s1) \<Rightarrow> (Some (py_round2 P forecast), s1)))"

subsection \<open>\<^verbatim>\<open>send_ntfy_alert\<close>\<close>

text \<open>
  The result is \<^verbatim>\<open>response.status == 200\<close>, or \<^verbatim>\<open>False\<close> after a \<^verbatim>\<open>URLError\<close>. No caller
  in the file looks at it.
\<close>

definition send_ntfy_alert ::
  "'w platform \<Rightarrow> string \<Rightarrow> string \<Rightarrow> string \<Rightarrow> string \<Rightarrow> string list option \<Rightarrow> 'w state \<Rightarrow> bool \<times> 'w state" where
  "send_ntfy_alert P topic title message priority tags s =
     (case environ_get P ''NTFY_SERVER'' ''https://ntfy.sh'' s of (ntfy_server, s1) \<Rightarrow>
      case environ_get P ''NTFY_TOKEN'' [] s1 of (ntfy_token, s2) \<Rightarrow>
        (let hs = [(''Title'', title),
                   (''Priority'', priority),
                   (''Tags'', (case tags of
                                 None \<Rightarrow> ''warning,dollar''
                               | Some ts \<Rightarrow> if ts \<noteq> [] then str_join '','' ts else ''warning,dollar''))];
             hs' = (if ntfy_token \<noteq> [] then hs @ [(''Authorization'', ''Bearer '' @ ntfy_token)] else hs);
             req = \<lparr>url = ntfy_server @ ''/'' @ topic, headers = hs', data = message\<rparr>
         in case call (urlopen P req) (UrlOpen req) s2 of
              (Inl e, s3) \<Rightarrow> (False, s3)
            | (Inr code, s3) \<Rightarrow> (code = 200, s3)))"

subsection \<open>\<^verbatim>\<open>list_active_resources\<close>\<close>

text \<open>
  Five independent blocks, each appending one line when its count is positive and
  swallowing a \<^verbatim>\<open>ClientError\<close>. The calls are made in the order of the source; the
  lines are then computed from their results, in the same order.
\<close>

definition list_active_resources :: "'w platform \<Rightarrow> 'w state \<Rightarrow> string list \<times> 'w state" where
  "list_active_resources P s =
     (case call (ec2_describe_instances P [''running'', ''pending''])
                (DescribeInstances [''running'', ''pending'']) s of (r1, s1) \<Rightarrow>
      case call (rds_describe_db_instances P) DescribeDbInstances s1 of (r2, s2) \<Rightarrow>
      case call (ec2_describe_nat_gateways P [''available'', ''pending''])
                (DescribeNatGateways [''available'', ''pending'']) s2 of (r3, s3) \<Rightarrow>
      case call (lambda_list_functions P) ListFunctions s3 of (r4, s4) \<Rightarrow>
      case call (s3_list_buckets P) ListBuckets s4 of (r5, s5) \<Rightarrow>
        (let resources1 = (case r1 of
                 Inl e \<Rightarrow> []
               | Inr reservations \<Rightarrow>
                   (let instance_count = sum_list (map length reservations)
                    in if instance_count > 0 then [''EC2 Instances: '' @ str_nat instance_count] else []));
             resources2 = (case r2 of
                 Inl e \<Rightarrow> resources1
               | Inr dbs \<Rightarrow>
                   if length dbs > 0 then resources1 @ [''RDS Instances: '' @ str_nat (length dbs)]
                   else resources1);
             resources3 = (case r3 of
                 Inl e \<Rightarrow> resources2
               | Inr nat_gws \<Rightarrow>
                   if length nat_gws > 0 then resources2 @ [''NAT Gateways: '' @ str_nat (length nat_gws)]
                   else resources2);
             resources4 = (case r4 of
                 Inl e \<Rightarrow> resources3
               | Inr functions \<Rightarrow>
                   if length functions > 0 then resources3 @ [''Lambda Functions: '' @ str_nat (length functions)]
                   else resources3);
             resources5 = (case r5 of
                 Inl e \<Rightarrow> resources4
               | Inr buckets \<Rightarrow>
                   if length buckets > 0 then resources4 @ [''S3 Buckets: '' @ str_nat (length buckets)]
                   else resources4)
         in (resources5, s5)))"

subsection \<open>\<^verbatim>\<open>trigger_nuke_warning\<close>\<close>

definition nuke_warning_message :: "'w platform \<Rightarrow> cost_info \<Rightarrow> real \<Rightarrow> string list \<Rightarrow> string" where
  "nuke_warning_message P info crit resources =
     str_join nl
       [''CRITICAL COST ALERT!'',
        [],
        ''Current AWS spending: $'' @ py_str P (total_cost info) @ '' USD'',
        ''Critical threshold: $'' @ py_str P crit @ '' USD'',
        ''Period: '' @ period info,
        [],
        ''Top services by cost:'',
        format_top_services P (service_breakdown info) 5,
        [],
        ''Active resources that may be nuked:'',
        (if resources \<noteq> [] then str_join nl (map (\<lambda>r. ''  - '' @ r) resources)
         else ''  (Unable to list resources)''),
        [],
        ''ACTION REQUIRED: Review and terminate unnecessary resources immediately!'',
        [],
        ''To prevent automated nuking, reduce costs below $'' @ py_str P crit
          @ '' or adjust the threshold.'']"

definition trigger_nuke_warning :: "'w platform \<Rightarrow> cost_info \<Rightarrow> real \<Rightarrow> 'w state \<Rightarrow> 'w state" where
  "trigger_nuke_warning P info crit s =
     (case environ_get P ''NTFY_TOPIC'' ''aws-cost-alerts'' s of (ntfy_topic, s1) \<Rightarrow>
      case list_active_resources P s1 of (resources, s2) \<Rightarrow>
        snd (send_ntfy_alert P ntfy_topic ''CRITICAL: AWS Cost Emergency''
               (nuke_warning_message P info crit resources) ''urgent''
               (Some [''rotating_light'', ''dollar'', ''skull'']) s2))"

subsection \<open>\<^verbatim>\<open>execute_resource_nuke\<close>\<close>

text \<open>The two flags of the safety gate, as lines 230 and 231 compute them.\<close>

definition enable_nuke :: "'w platform \<Rightarrow> bool" where
  "enable_nuke P = (lower (environ_value P ''ENABLE_AUTO_NUKE'' ''false'') = ''true'')"

definition dry_run :: "'w platform \<Rightarrow> bool" where
  "dry_run P = (lower (environ_value P ''NUKE_DRY_RUN'' ''true'') = ''true'')"

definition skipped_message :: string where
  "skipped_message =
     str_join nl
       [''Auto-nuke is DISABLED.'',
        [],
        ''To enable automatic resource cleanup, set ENABLE_AUTO_NUKE=true.'',
        [],
        ''For now, please manually review and terminate resources.'']"

definition dry_run_message :: "string list \<Rightarrow> string" where
  "dry_run_message resources =
     str_join nl
       [''DRY RUN - Would terminate:'',
        [],
        str_join nl (map (\<lambda>r. ''  - '' @ r) resources),
        [],
        ''Set NUKE_DRY_RUN=false to actually terminate resources.'']"

definition executed_message :: "string list \<Rightarrow> string list \<Rightarrow> string" where
  "executed_message terminated errors =
     str_join nl
       [''NUKE EXECUTED'',
        [],
        ''Actions taken:'',
        (if terminated \<noteq> [] then str_join nl (map (\<lambda>t. ''  - '' @ t) terminated) else ''  (none)''),
        [],
        ''Errors:'',
        (if errors \<noteq> [] then str_join nl (map (\<lambda>e. ''  - '' @ e) errors) else ''  (none)''),
        [],
        ''Please verify the changes in your AWS console.'']"

text \<open>
  Lines 273 to 289: stop the running EC2 instances with one call. The two lists
  \<^verbatim>\<open>terminated\<close> and \<^verbatim>\<open>errors\<close> go in and come out.
\<close>

definition nuke_ec2_block ::
  "'w platform \<Rightarrow> string list \<times> string list \<Rightarrow> 'w state \<Rightarrow> (string list \<times> string list) \<times> 'w state" where
  "nuke_ec2_block P acc s =
     (case acc of (terminated, errors) \<Rightarrow>
      case call (ec2_describe_instances P [''running'']) (DescribeInstances [''running'']) s of
        (Inl e, s1) \<Rightarrow> ((terminated, errors @ [''EC2: '' @ e]), s1)
      | (Inr reservations, s1) \<Rightarrow>
          (let instance_ids = concat reservations
           in if instance_ids \<noteq> [] then
                (case call (ec2_stop_instances P instance_ids) (StopInstances instance_ids) s1 of
                   (Inl e, s2) \<Rightarrow> ((terminated, errors @ [''EC2: '' @ e]), s2)
                 | (Inr u, s2) \<Rightarrow>
                     ((terminated @ [''Stopped '' @ str_nat (length instance_ids) @ '' EC2 instances''],
                       errors), s2))
              else ((terminated, errors), s1)))"

text \<open>
  Lines 297 to 299: the loop over the NAT gateways. A \<^verbatim>\<open>ClientError\<close> leaves the loop
  (\<open>Inl\<close>); the entries appended before it stay in \<^verbatim>\<open>terminated\<close>.
\<close>

fun delete_nat_gateways ::
  "'w platform \<Rightarrow> string list \<Rightarrow> string list \<Rightarrow> 'w state \<Rightarrow> (string + unit) \<times> string list \<times> 'w state" where
  "delete_nat_gateways P [] terminated s = (Inr (), terminated, s)"
| "delete_nat_gateways P (nat_id # rest) terminated s =
     (case call (ec2_delete_nat_gateway P nat_id) (DeleteNatGateway nat_id) s of
        (Inl e, s1) \<Rightarrow> (Inl e, terminated, s1)
      | (Inr u, s1) \<Rightarrow>
          delete_nat_gateways P rest (terminated @ [''Deleted NAT Gateway: '' @ nat_id]) s1)"

text \<open>Lines 291 to 301.\<close>

definition nuke_nat_block ::
  "'w platform \<Rightarrow> string list \<times> string list \<Rightarrow> 'w state \<Rightarrow> (string list \<times> string list) \<times> 'w state" where
  "nuke_nat_block P acc s =
     (case acc of (terminated, errors) \<Rightarrow>
      case call (ec2_describe_nat_gateways P [''available'']) (DescribeNatGateways [''available'']) s of
        (Inl e, s1) \<Rightarrow> ((terminated, errors @ [''NAT Gateway: '' @ e]), s1)
      | (Inr nat_gws, s1) \<Rightarrow>
          (case delete_nat_gateways P nat_gws terminated s1 of
             (Inl e, terminated', s2) \<Rightarrow> ((terminated', errors @ [''NAT Gateway: '' @ e]), s2)
           | (Inr u, terminated', s2) \<Rightarrow> ((terminated', errors), s2)))"

text \<open>
  Lines 307 to 313: the loop over the databases. The inner \<^verbatim>\<open>except ClientError: pass\<close>
  goes on with the next database and appends nothing.
\<close>

fun stop_db_instances ::
  "'w platform \<Rightarrow> db_instance list \<Rightarrow> string list \<Rightarrow> 'w state \<Rightarrow> string list \<times> 'w state" where
  "stop_db_instances P [] terminated s = (terminated, s)"
| "stop_db_instances P (db # rest) terminated s =
     (if DBInstanceStatus db = ''available'' then
        (case call (rds_stop_db_instance P (DBInstanceIdentifier db))
                   (StopDbInstance (DBInstanceIdentifier db)) s of
           (Inl e, s1) \<Rightarrow> stop_db_instances P rest terminated s1
         | (Inr u, s1) \<Rightarrow>
             stop_db_instances P rest (terminated @ [''Stopped RDS: '' @ DBInstanceIdentifier db]) s1)
      else stop_db_instances P rest terminated s)"

text \<open>Lines 303 to 315.\<close>

definition nuke_rds_block ::
  "'w platform \<Rightarrow> string list \<times> string list \<Rightarrow> 'w state \<Rightarrow> (string list \<times> string list) \<times> 'w state" where
  "nuke_rds_block P acc s =
     (case acc of (terminated, errors) \<Rightarrow>
      case call (rds_describe_db_instances P) DescribeDbInstances s of
        (Inl e, s1) \<Rightarrow> ((terminated, errors @ [''RDS: '' @ e]), s1)
      | (Inr dbs, s1) \<Rightarrow>
          (case stop_db_instances P dbs terminated s1 of
             (terminated', s2) \<Rightarrow> ((terminated', errors), s2)))"

definition execute_resource_nuke :: "'w platform \<Rightarrow> 'w state \<Rightarrow> nuke_result \<times> 'w state" where
  "execute_resource_nuke P s =
     (case environ_get P ''ENABLE_AUTO_NUKE'' ''false'' s of (v1, s1) \<Rightarrow>
      case environ_get P ''NUKE_DRY_RUN'' ''true'' s1 of (v2, s2) \<Rightarrow>
      case environ_get P ''NTFY_TOPIC'' ''aws-cost-alerts'' s2 of (ntfy_topic, s3) \<Rightarrow>
        if \<not> (lower v1 = ''true'') then
          (case send_ntfy_alert P ntfy_topic ''Nuke Skipped - Manual Action Required''
                  skipped_message ''high'' (Some [''hand'', ''warning'']) s3 of
             (sent, s4) \<Rightarrow> (Skipped ''auto_nuke_disabled'', s4))
        else if lower v2 = ''true'' then
          (case list_active_resources P s3 of (resources, s4) \<Rightarrow>
           case send_ntfy_alert P ntfy_topic ''Nuke DRY RUN''
                  (dry_run_message resources) ''high'' (Some [''test_tube'', ''warning'']) s4 of
             (sent, s5) \<Rightarrow> (DryRun resources, s5))
        else
          (case nuke_ec2_block P ([], []) s3 of (acc1, s4) \<Rightarrow>
           case nuke_nat_block P acc1 s4 of (acc2, s5) \<Rightarrow>
           case nuke_rds_block P acc2 s5 of ((terminated, errors), s6) \<Rightarrow>
           case send_ntfy_alert P ntfy_topic ''Resource Nuke Complete''
                  (executed_message terminated errors) ''urgent'' (Some [''skull'', ''check'']) s6 of
             (sent, s7) \<Rightarrow> (Executed terminated errors, s7)))"

subsection \<open>\<^verbatim>\<open>lambda_handler\<close>\<close>

text \<open>
  The arguments \<^verbatim>\<open>event\<close> and \<^verbatim>\<open>context\<close> are not used by the source. \<^verbatim>\<open>float\<close> of a
  threshold that is not a number raises \<^verbatim>\<open>ValueError\<close>; a \<^verbatim>\<open>ClientError\<close> of the cost
  query leaves the handler. \<^verbatim>\<open>forecast_msg\<close> is empty when the forecast is \<^verbatim>\<open>None\<close> or zero.
\<close>

definition alert_message :: "'w platform \<Rightarrow> cost_info \<Rightarrow> real \<Rightarrow> string \<Rightarrow> string" where
  "alert_message P info alert forecast_msg =
     str_join nl
       [''AWS Cost Alert'',
        [],
        ''Current spending: $'' @ py_str P (total_cost info) @ '' USD'',
        ''Alert threshold: $'' @ py_str P alert @ '' USD'',
        ''Period: '' @ period info @ forecast_msg,
        [],
        ''Top services by cost:'',
        format_top_services P (service_breakdown info) 5,
        [],
        ''Review your AWS resources to control costs.'']"

definition summary_message :: "'w platform \<Rightarrow> cost_info \<Rightarrow> real \<Rightarrow> string \<Rightarrow> string" where
  "summary_message P info alert forecast_msg =
     str_join nl
       [''AWS Daily Cost Summary'',
        [],
        ''Current spending: $'' @ py_str P (total_cost info) @ '' USD'',
        ''Alert threshold: $'' @ py_str P alert @ '' USD'' @ forecast_msg,
        [],
        ''Top services:'',
        format_top_services P (service_breakdown info) 5,
        [],
        ''All costs within limits.'']"

definition lambda_handler :: "'w platform \<Rightarrow> 'w state \<Rightarrow> (exn + response) \<times> 'w state" where
  "lambda_handler P s =
     (case environ_get P ''ALERT_THRESHOLD'' ''10'' s of (alert_text, s1) \<Rightarrow>
      case py_float P alert_text of
        None \<Rightarrow> (Inl (ValueError alert_text), s1)
      | Some alert \<Rightarrow>
      case environ_get P ''CRITICAL_THRESHOLD'' ''50'' s1 of (crit_text, s2) \<Rightarrow>
      case py_float P crit_text of
        None \<Rightarrow> (Inl (ValueError crit_text), s2)
      | Some crit \<Rightarrow>
      case environ_get P ''NTFY_TOPIC'' ''aws-cost-alerts'' s2 of (ntfy_topic, s3) \<Rightarrow>
      case get_current_month_costs P s3 of
        (Inl e, s4) \<Rightarrow> (Inl e, s4)
      | (Inr info, s4) \<Rightarrow>
      case get_forecasted_month_end_cost P s4 of (forecast, s5) \<Rightarrow>
        (let cost = total_cost info;
             forecast_msg = (case forecast of
                               None \<Rightarrow> []
                             | Some f \<Rightarrow> if f \<noteq> 0
                                         then nl @ ''Forecasted month-end cost: $'' @ py_str P f
                                         else []);
             resp = \<lparr>statusCode = 200,
                     current_cost = cost,
                     alert_threshold = alert,
                     critical_threshold = crit,
                     forecasted_cost = forecast,
                     alert_sent = False,
                     nuke_triggered = False,
                     nuke_result = None\<rparr>
         in if cost \<ge> crit then
              (case execute_resource_nuke P (trigger_nuke_warning P info crit s5) of
                 (result, s7) \<Rightarrow>
                   (Inr (resp\<lparr>nuke_triggered := True, nuke_result := Some result, alert_sent := True\<rparr>), s7))
            else if cost \<ge> alert then
              (case send_ntfy_alert P ntfy_topic (''AWS Cost Alert: $'' @ py_str P cost)
                      (alert_message P info alert forecast_msg) ''high''
                      (Some [''warning'', ''dollar'']) s5 of
                 (sent, s6) \<Rightarrow> (Inr (resp\<lparr>alert_sent := True\<rparr>), s6))
            else
              (case environ_get P ''SEND_DAILY_SUMMARY'' ''false'' s5 of (v, s6) \<Rightarrow>
                 if lower v = ''true'' then
                   (case send_ntfy_alert P ntfy_topic (''AWS Cost Summary: $'' @ py_str P cost)
                           (summary_message P info alert forecast_msg) ''low''
                           (Some [''chart_with_upwards_trend'', ''white_check_mark'']) s6 of
                      (sent, s7) \<Rightarrow> (Inr resp, s7))
                 else (Inr resp, s6))))"

subsection \<open>One invocation\<close>

text \<open>An invocation starts with an empty trace; its outcome is the result and the trace.\<close>

definition invoke :: "'w platform \<Rightarrow> 'w \<Rightarrow> (exn + response) \<times> event list" where
  "invoke P w = (case lambda_handler P \<lparr>world = w, trace = []\<rparr> of (r, s) \<Rightarrow> (r, trace s))"

subsection \<open>Reading a trace\<close>

text \<open>The three calls that change a resource.\<close>

fun is_mutating :: "event \<Rightarrow> bool" where
  "is_mutating (StopInstances ids r) = True"
| "is_mutating (DeleteNatGateway i r) = True"
| "is_mutating (StopDbInstance i r) = True"
| "is_mutating e = False"

fun is_inventory :: "event \<Rightarrow> bool" where
  "is_inventory (DescribeInstances f r) = True"
| "is_inventory (DescribeDbInstances r) = True"
| "is_inventory (DescribeNatGateways f r) = True"
| "is_inventory (ListFunctions r) = True"
| "is_inventory (ListBuckets r) = True"
| "is_inventory e = False"

fun is_cost_query :: "event \<Rightarrow> bool" where
  "is_cost_query (GetCostAndUsage a b r) = True"
| "is_cost_query (GetCostForecast a b r) = True"
| "is_cost_query e = False"

fun is_notification :: "event \<Rightarrow> bool" where
  "is_notification (UrlOpen req r) = True"
| "is_notification e = False"

fun is_env_read :: "event \<Rightarrow> bool" where
  "is_env_read (GetEnv key) = True"
| "is_env_read e = False"


fun is_gate_read :: "event \<Rightarrow> bool" where
  "is_gate_read (GetEnv key) = (key = ''ENABLE_AUTO_NUKE'' \<or> key = ''NUKE_DRY_RUN'')"
| "is_gate_read e = False"

fun is_nat_delete :: "event \<Rightarrow> bool" where
  "is_nat_delete (DeleteNatGateway i r) = True"
| "is_nat_delete e = False"

fun has_title :: "string \<Rightarrow> event \<Rightarrow> bool" where
  "has_title t (UrlOpen req r) = (map_of (headers req) ''Title'' = Some t)"
| "has_title t e = False"

fun title_starts :: "string \<Rightarrow> event \<Rightarrow> bool" where
  "title_starts p (UrlOpen req r) =
     (case map_of (headers req) ''Title'' of None \<Rightarrow> False | Some t \<Rightarrow> prefix p t)"
| "title_starts p e = False"

text \<open>The databases the loop of lines 307 to 313 tries to stop.\<close>

definition available_ids :: "db_instance list \<Rightarrow> string list" where
  "available_ids dbs =
     map DBInstanceIdentifier (filter (\<lambda>db. DBInstanceStatus db = ''available'') dbs)"

text \<open>
  The entry of \<^verbatim>\<open>terminated\<close> that a successful call stands for, and the entry of
  \<^verbatim>\<open>errors\<close> that a failed call stands for. A failed \<^verbatim>\<open>stop_db_instance\<close> stands for none.
\<close>

fun succeeded_line :: "event \<Rightarrow> string option" where
  "succeeded_line (StopInstances ids (Inr u)) =
     Some (''Stopped '' @ str_nat (length ids) @ '' EC2 instances'')"
| "succeeded_line (DeleteNatGateway i (Inr u)) = Some (''Deleted NAT Gateway: '' @ i)"
| "succeeded_line (StopDbInstance i (Inr u)) = Some (''Stopped RDS: '' @ i)"
| "succeeded_line e = None"

fun failed_line :: "event \<Rightarrow> string option" where
  "failed_line (DescribeInstances f (Inl e)) = Some (''EC2: '' @ e)"
| "failed_line (StopInstances ids (Inl e)) = Some (''EC2: '' @ e)"
| "failed_line (DescribeNatGateways f (Inl e)) = Some (''NAT Gateway: '' @ e)"
| "failed_line (DeleteNatGateway i (Inl e)) = Some (''NAT Gateway: '' @ e)"
| "failed_line (DescribeDbInstances (Inl e)) = Some (''RDS: '' @ e)"
| "failed_line e = None"

subsection \<open>The tiers of the specification\<close>

datatype tier = Normal | Alert | Critical

text \<open>The classifier as the specification words it.\<close>

definition classify_spec :: "real \<Rightarrow> real \<Rightarrow> real \<Rightarrow> tier" where
  "classify_spec amount alertLevel criticalLevel =
     (if amount \<ge> criticalLevel then Critical
      else if amount \<ge> alertLevel then Alert
      else Normal)"

text \<open>
  The branch the handler took, read from what it returned and from what it did: the
  critical branch is the one that sets \<^verbatim>\<open>nuke_triggered\<close> and sends the emergency warning,
  the alert branch the one that sets \<^verbatim>\<open>alert_sent\<close> only and sends the cost alert.
\<close>

definition tier_of_response :: "response \<Rightarrow> tier" where
  "tier_of_response r =
     (if nuke_triggered r then Critical else if alert_sent r then Alert else Normal)"

definition tier_of_trace :: "event list \<Rightarrow> tier" where
  "tier_of_trace t =
     (if list_ex (has_title ''CRITICAL: AWS Cost Emergency'') t then Critical
      else if list_ex (title_starts ''AWS Cost Alert: $'') t then Alert
      else Normal)"

subsection \<open>Example platforms\<close>

text \<open>
  A month at 60 USD with the default thresholds 10 and 50. Two instances run, whose stop
  is refused; of three NAT gateways the second cannot be deleted; the one database rejects
  the stop. Notifications are delivered.
\<close>

definition demo :: "unit platform" where
  "demo =
     \<lparr>environ = Map.empty,
      py_float = (\<lambda>s. if s = ''10'' then Some 10 else if s = ''50'' then Some 50
                       else if s = ''100'' then Some 100 else None),
      py_str = (\<lambda>x. ''<amount>''),
      py_fmt2 = (\<lambda>x. ''<amount>''),
      py_round2 = (\<lambda>x. x),
      utc_dates = (\<lambda>w. (''2024-05-01'', ''2024-05-21'', ''2024-06-01'')),
      ce_get_cost_and_usage = (\<lambda>a b w. (Inr [[(''Amazon EC2'', 45), (''Amazon RDS'', 15)]], w)),
      ce_get_cost_forecast = (\<lambda>a b w. (Inl ''DataUnavailable'', w)),
      ec2_describe_instances = (\<lambda>f w. (Inr [[''i-1'', ''i-2'']], w)),
      rds_describe_db_instances =
        (\<lambda>w. (Inr [\<lparr>DBInstanceIdentifier = ''db-1'', DBInstanceStatus = ''available''\<rparr>], w)),
      ec2_describe_nat_gateways = (\<lambda>f w. (Inr [''nat-1'', ''nat-2'', ''nat-3''], w)),
      lambda_list_functions = (\<lambda>w. (Inr [], w)),
      s3_list_buckets = (\<lambda>w. (Inl ''AccessDenied'', w)),
      ec2_stop_instances = (\<lambda>ids w. (Inl ''UnauthorizedOperation'', w)),
      ec2_delete_nat_gateway =
        (\<lambda>i w. (if i = ''nat-2'' then Inl ''DependencyViolation'' else Inr (), w)),
      rds_stop_db_instance = (\<lambda>i w. (Inl ''InvalidDBInstanceState'', w)),
      urlopen = (\<lambda>req w. (Inr 200, w))\<rparr>"

definition demo_dry_run :: "unit platform" where
  "demo_dry_run = demo\<lparr>environ := [''ENABLE_AUTO_NUKE'' \<mapsto> ''true'']\<rparr>"

definition demo_execute :: "unit platform" where
  "demo_execute = demo\<lparr>environ := [''ENABLE_AUTO_NUKE'' \<mapsto> ''True'', ''NUKE_DRY_RUN'' \<mapsto> ''false'']\<rparr>"

definition demo_swapped :: "unit platform" where
  "demo_swapped = demo\<lparr>environ := [''ALERT_THRESHOLD'' \<mapsto> ''100'']\<rparr>"


definition demo_database_only :: "unit platform" where
  "demo_database_only =
     demo_execute\<lparr>ec2_describe_instances := (\<lambda>f w. (Inr [], w)),
                   ec2_describe_nat_gateways := (\<lambda>f w. (Inr [], w))\<rparr>"

definition example_breakdown :: "(string \<times> real) list" where
  "example_breakdown =
     [(''A'', 40), (''B'', 35), (''C'', 0.001), (''D'', 20), (''E'', 10), (''F'', 5)]"

section \<open>Properties\<close>

subsection \<open>What each function adds to the trace\<close>

lemma call_trace: "call operation ev s = (r, s') \<Longrightarrow> trace s' = trace s @ [ev r]"
  by (auto simp: call_def split: prod.splits)

lemma environ_get_trace:
  "environ_get P key dflt s = (v, s') \<Longrightarrow> v = environ_value P key dflt \<and> trace s' = trace s @ [GetEnv key]"
  by (auto simp: environ_get_def)

lemma send_ntfy_alert_trace:
  assumes "send_ntfy_alert P topic title message priority tags s = (sent, s')"
  shows "\<exists>req res. trace s' = trace s @ [GetEnv ''NTFY_SERVER'', GetEnv ''NTFY_TOKEN'', UrlOpen req res]
      \<and> map_of (headers req) ''Title'' = Some title
      \<and> map_of (headers req) ''Priority'' = Some priority
      \<and> data req = message
      \<and> sent = (res = Inr 200)"
  using assms
  by (auto simp: send_ntfy_alert_def environ_get_def call_def Let_def split: prod.splits sum.splits)

lemma list_active_resources_trace:
  assumes "list_active_resources P s = (resources, s')"
  shows "\<exists>r1 r2 r3 r4 r5. trace s' = trace s @
           [DescribeInstances [''running'', ''pending''] r1, DescribeDbInstances r2,
            DescribeNatGateways [''available'', ''pending''] r3, ListFunctions r4, ListBuckets r5]"
  using assms
  by (auto simp: list_active_resources_def call_def Let_def split: prod.splits)

lemma trigger_nuke_warning_trace:
  assumes "trigger_nuke_warning P info crit s = s'"
  shows "\<exists>inv req res. trace s' = trace s @ GetEnv ''NTFY_TOPIC'' # inv
             @ [GetEnv ''NTFY_SERVER'', GetEnv ''NTFY_TOKEN'', UrlOpen req res]
      \<and> (\<forall>e \<in> set inv. is_inventory e)
      \<and> map_of (headers req) ''Title'' = Some ''CRITICAL: AWS Cost Emergency''
      \<and> map_of (headers req) ''Priority'' = Some ''urgent''"
proof -
  obtain topic s1 where g: "environ_get P ''NTFY_TOPIC'' ''aws-cost-alerts'' s = (topic, s1)"
    by (cases "environ_get P ''NTFY_TOPIC'' ''aws-cost-alerts'' s")
  obtain resources s2 where l: "list_active_resources P s1 = (resources, s2)"
    by (cases "list_active_resources P s1")
  obtain sent s3 where n: "send_ntfy_alert P topic ''CRITICAL: AWS Cost Emergency''
               (nuke_warning_message P info crit resources) ''urgent''
               (Some [''rotating_light'', ''dollar'', ''skull'']) s2 = (sent, s3)"
    by (cases "send_ntfy_alert P topic ''CRITICAL: AWS Cost Emergency''
               (nuke_warning_message P info crit resources) ''urgent''
               (Some [''rotating_light'', ''dollar'', ''skull'']) s2")
  have s': "s' = s3"
    using assms g l n by (simp add: trigger_nuke_warning_def)
  from environ_get_trace [OF g] have t1: "trace s1 = trace s @ [GetEnv ''NTFY_TOPIC'']"
    by simp
  from list_active_resources_trace [OF l] obtain inv
    where t2: "trace s2 = trace s1 @ inv" and inv: "\<forall>e \<in> set inv. is_inventory e"
    by fastforce
  from send_ntfy_alert_trace [OF n] obtain req res
    where t3: "trace s3 = trace s2 @ [GetEnv ''NTFY_SERVER'', GetEnv ''NTFY_TOKEN'', UrlOpen req res]"
      and hd: "map_of (headers req) ''Title'' = Some ''CRITICAL: AWS Cost Emergency''"
        "map_of (headers req) ''Priority'' = Some ''urgent''"
    by blast
  show ?thesis
    using s' t1 t2 t3 inv hd by auto
qed

lemma map_filter_append:
  "List.map_filter f (xs @ ys) = List.map_filter f xs @ List.map_filter f ys"
  by (simp add: List.map_filter_def)

lemma delete_nat_gateways_trace:
  "delete_nat_gateways P gws terminated s = (r, terminated', s') \<Longrightarrow>
     (\<exists>u. r = Inr u
        \<and> trace s' = trace s @ map (\<lambda>i. DeleteNatGateway i (Inr ())) gws
        \<and> terminated' = terminated @ map (\<lambda>i. ''Deleted NAT Gateway: '' @ i) gws)
   \<or> (\<exists>e before g rest. r = Inl e \<and> gws = before @ g # rest
        \<and> trace s' = trace s @ map (\<lambda>i. DeleteNatGateway i (Inr ())) before @ [DeleteNatGateway g (Inl e)]
        \<and> terminated' = terminated @ map (\<lambda>i. ''Deleted NAT Gateway: '' @ i) before)"
proof (induction gws arbitrary: terminated s)
  case Nil
  then show ?case by simp
next
  case (Cons g gws)
  obtain r1 s1 where c: "call (ec2_delete_nat_gateway P g) (DeleteNatGateway g) s = (r1, s1)"
    by (cases "call (ec2_delete_nat_gateway P g) (DeleteNatGateway g) s")
  have t1: "trace s1 = trace s @ [DeleteNatGateway g r1]"
    by (rule call_trace [OF c])
  show ?case
  proof (cases r1)
    case (Inl e)
    with Cons.prems c have "r = Inl e" "terminated' = terminated" "s' = s1"
      by simp_all
    with t1 Inl have "r = Inl e \<and> g # gws = [] @ g # gws
        \<and> trace s' = trace s @ map (\<lambda>i. DeleteNatGateway i (Inr ())) [] @ [DeleteNatGateway g (Inl e)]
        \<and> terminated' = terminated @ map (\<lambda>i. ''Deleted NAT Gateway: '' @ i) []"
      by simp
    then show ?thesis by blast
  next
    case (Inr u)
    with Cons.prems c
    have rec: "delete_nat_gateways P gws (terminated @ [''Deleted NAT Gateway: '' @ g]) s1 = (r, terminated', s')"
      by simp
    from Cons.IH [OF rec] show ?thesis
    proof (elim disjE exE conjE)
      fix v
      assume "r = Inr v"
        and "trace s' = trace s1 @ map (\<lambda>i. DeleteNatGateway i (Inr ())) gws"
        and "terminated' = (terminated @ [''Deleted NAT Gateway: '' @ g]) @ map (\<lambda>i. ''Deleted NAT Gateway: '' @ i) gws"
      with t1 Inr show ?thesis by simp
    next
      fix e before h rest
      assume "r = Inl e" and "gws = before @ h # rest"
        and "trace s' = trace s1 @ map (\<lambda>i. DeleteNatGateway i (Inr ())) before @ [DeleteNatGateway h (Inl e)]"
        and "terminated' = (terminated @ [''Deleted NAT Gateway: '' @ g]) @ map (\<lambda>i. ''Deleted NAT Gateway: '' @ i) before"
      with t1 Inr have "r = Inl e \<and> g # gws = (g # before) @ h # rest
        \<and> trace s' = trace s @ map (\<lambda>i. DeleteNatGateway i (Inr ())) (g # before) @ [DeleteNatGateway h (Inl e)]
        \<and> terminated' = terminated @ map (\<lambda>i. ''Deleted NAT Gateway: '' @ i) (g # before)"
        by simp
      then show ?thesis by blast
    qed
  qed
qed

lemma stop_db_instances_trace:
  "stop_db_instances P dbs terminated s = (terminated', s') \<Longrightarrow>
     \<exists>results. length results = length (filter (\<lambda>db. DBInstanceStatus db = ''available'') dbs)
       \<and> trace s' = trace s @ map2 StopDbInstance
            (map DBInstanceIdentifier (filter (\<lambda>db. DBInstanceStatus db = ''available'') dbs)) results
       \<and> terminated' = terminated @ List.map_filter succeeded_line (map2 StopDbInstance
            (map DBInstanceIdentifier (filter (\<lambda>db. DBInstanceStatus db = ''available'') dbs)) results)"
proof (induction dbs arbitrary: terminated s)
  case Nil
  then show ?case by (simp add: List.map_filter_simps)
next
  case (Cons db dbs)
  show ?case
  proof (cases "DBInstanceStatus db = ''available''")
    case False
    with Cons.prems have "stop_db_instances P dbs terminated s = (terminated', s')"
      by simp
    from Cons.IH [OF this] False show ?thesis by simp
  next
    case True
    obtain r1 s1 where c: "call (rds_stop_db_instance P (DBInstanceIdentifier db))
                   (StopDbInstance (DBInstanceIdentifier db)) s = (r1, s1)"
      by (cases "call (rds_stop_db_instance P (DBInstanceIdentifier db))
                   (StopDbInstance (DBInstanceIdentifier db)) s")
    have t1: "trace s1 = trace s @ [StopDbInstance (DBInstanceIdentifier db) r1]"
      by (rule call_trace [OF c])
    define line where "line = (case r1 of Inl e \<Rightarrow> [] | Inr u \<Rightarrow> [''Stopped RDS: '' @ DBInstanceIdentifier db])"
    have rec: "stop_db_instances P dbs (terminated @ line) s1 = (terminated', s')"
      using Cons.prems c True by (cases r1) (simp_all add: line_def)
    have line: "List.map_filter succeeded_line [StopDbInstance (DBInstanceIdentifier db) r1] = line"
      by (cases r1) (simp_all add: line_def List.map_filter_simps)
    from Cons.IH [OF rec] obtain results
      where len: "length results = length (filter (\<lambda>db. DBInstanceStatus db = ''available'') dbs)"
        and tr: "trace s' = trace s1 @ map2 StopDbInstance
            (map DBInstanceIdentifier (filter (\<lambda>db. DBInstanceStatus db = ''available'') dbs)) results"
        and te: "terminated' = (terminated @ line) @ List.map_filter succeeded_line (map2 StopDbInstance
            (map DBInstanceIdentifier (filter (\<lambda>db. DBInstanceStatus db = ''available'') dbs)) results)"
      by blast
    have "length (r1 # results) = length (filter (\<lambda>db. DBInstanceStatus db = ''available'') (db # dbs))"
      using len True by simp
    moreover have "trace s' = trace s @ map2 StopDbInstance
            (map DBInstanceIdentifier (filter (\<lambda>db. DBInstanceStatus db = ''available'') (db # dbs))) (r1 # results)"
      using tr t1 True by simp
    moreover have "terminated' = terminated @ List.map_filter succeeded_line (map2 StopDbInstance
            (map DBInstanceIdentifier (filter (\<lambda>db. DBInstanceStatus db = ''available'') (db # dbs))) (r1 # results))"
    proof -
      have "map2 StopDbInstance
            (map DBInstanceIdentifier (filter (\<lambda>db. DBInstanceStatus db = ''available'') (db # dbs))) (r1 # results)
          = [StopDbInstance (DBInstanceIdentifier db) r1] @ map2 StopDbInstance
            (map DBInstanceIdentifier (filter (\<lambda>db. DBInstanceStatus db = ''available'') dbs)) results"
        using True by simp
      then show ?thesis
        using te line by (simp only: map_filter_append append_assoc)
    qed
    ultimately show ?thesis by blast
  qed
qed

lemma succeeded_line_deleted:
  "List.map_filter succeeded_line (map (\<lambda>i. DeleteNatGateway i (Inr ())) gws)
     = map (\<lambda>i. ''Deleted NAT Gateway: '' @ i) gws"
  by (induction gws) (simp_all add: List.map_filter_simps)

lemma failed_line_deleted:
  "List.map_filter failed_line (map (\<lambda>i. DeleteNatGateway i (Inr ())) gws) = []"
  by (induction gws) (simp_all add: List.map_filter_simps)

lemma failed_line_stop_db:
  "List.map_filter failed_line (map2 StopDbInstance ids results) = []"
proof (induction ids arbitrary: results)
  case Nil
  then show ?case by (simp add: List.map_filter_simps)
next
  case (Cons i ids)
  then show ?case
    by (cases results) (simp_all add: List.map_filter_simps)
qed

lemma nuke_ec2_block_trace:
  assumes "nuke_ec2_block P (terminated, errors) s = ((terminated', errors'), s')"
  shows "\<exists>r ec2. trace s' = trace s @ DescribeInstances [''running''] r # ec2
     \<and> ((\<exists>e. r = Inl e \<and> ec2 = [])
        \<or> (\<exists>reservations. r = Inr reservations \<and> concat reservations = [] \<and> ec2 = [])
        \<or> (\<exists>reservations res. r = Inr reservations \<and> concat reservations \<noteq> []
              \<and> ec2 = [StopInstances (concat reservations) res]))
     \<and> terminated' = terminated @ List.map_filter succeeded_line (DescribeInstances [''running''] r # ec2)
     \<and> errors' = errors @ List.map_filter failed_line (DescribeInstances [''running''] r # ec2)"
proof -
  obtain r s1 where c: "call (ec2_describe_instances P [''running'']) (DescribeInstances [''running'']) s = (r, s1)"
    by (cases "call (ec2_describe_instances P [''running'']) (DescribeInstances [''running'']) s")
  have t1: "trace s1 = trace s @ [DescribeInstances [''running''] r]"
    by (rule call_trace [OF c])
  show ?thesis
  proof (cases r)
    case (Inl e)
    with assms c have "terminated' = terminated" "errors' = errors @ [''EC2: '' @ e]" "s' = s1"
      by (simp_all add: nuke_ec2_block_def)
    with t1 Inl show ?thesis
      by (intro exI [of _ r] exI [of _ "[]"]) (simp add: List.map_filter_simps)
  next
    case (Inr reservations)
    show ?thesis
    proof (cases "concat reservations = []")
      case True
      with assms c Inr have "terminated' = terminated" "errors' = errors" "s' = s1"
        by (simp_all add: nuke_ec2_block_def)
      with t1 Inr True show ?thesis
        by (intro exI [of _ r] exI [of _ "[]"]) (simp add: List.map_filter_simps)
    next
      case False
      obtain res s2 where c2: "call (ec2_stop_instances P (concat reservations))
          (StopInstances (concat reservations)) s1 = (res, s2)"
        by (cases "call (ec2_stop_instances P (concat reservations)) (StopInstances (concat reservations)) s1")
      have t2: "trace s2 = trace s1 @ [StopInstances (concat reservations) res]"
        by (rule call_trace [OF c2])
      have "s' = s2 \<and> terminated' = terminated @ List.map_filter succeeded_line [StopInstances (concat reservations) res]
          \<and> errors' = errors @ List.map_filter failed_line [StopInstances (concat reservations) res]"
        using assms c c2 Inr False
        by (cases res) (simp_all add: nuke_ec2_block_def List.map_filter_simps)
      with t1 t2 Inr False show ?thesis
        by (intro exI [of _ r] exI [of _ "[StopInstances (concat reservations) res]"])
           (simp add: List.map_filter_simps)
    qed
  qed
qed

lemma nuke_nat_block_trace:
  assumes "nuke_nat_block P (terminated, errors) s = ((terminated', errors'), s')"
  shows "\<exists>r nat. trace s' = trace s @ DescribeNatGateways [''available''] r # nat
     \<and> ((\<exists>e. r = Inl e \<and> nat = [])
        \<or> (\<exists>gws. r = Inr gws \<and> nat = map (\<lambda>i. DeleteNatGateway i (Inr ())) gws)
        \<or> (\<exists>before g rest e. r = Inr (before @ g # rest)
              \<and> nat = map (\<lambda>i. DeleteNatGateway i (Inr ())) before @ [DeleteNatGateway g (Inl e)]))
     \<and> terminated' = terminated @ List.map_filter succeeded_line (DescribeNatGateways [''available''] r # nat)
     \<and> errors' = errors @ List.map_filter failed_line (DescribeNatGateways [''available''] r # nat)"
proof -
  obtain r s1 where c: "call (ec2_describe_nat_gateways P [''available''])
      (DescribeNatGateways [''available'']) s = (r, s1)"
    by (cases "call (ec2_describe_nat_gateways P [''available'']) (DescribeNatGateways [''available'']) s")
  have t1: "trace s1 = trace s @ [DescribeNatGateways [''available''] r]"
    by (rule call_trace [OF c])
  show ?thesis
  proof (cases r)
    case (Inl e)
    with assms c have "terminated' = terminated" "errors' = errors @ [''NAT Gateway: '' @ e]" "s' = s1"
      by (simp_all add: nuke_nat_block_def)
    with t1 Inl show ?thesis
      by (intro exI [of _ r] exI [of _ "[]"]) (simp add: List.map_filter_simps)
  next
    case (Inr gws)
    obtain r2 t2 s2 where d: "delete_nat_gateways P gws terminated s1 = (r2, t2, s2)"
      by (cases "delete_nat_gateways P gws terminated s1")
    from delete_nat_gateways_trace [OF d] show ?thesis
    proof (elim disjE exE conjE)
      fix u
      assume a: "r2 = Inr u" "trace s2 = trace s1 @ map (\<lambda>i. DeleteNatGateway i (Inr ())) gws"
        "t2 = terminated @ map (\<lambda>i. ''Deleted NAT Gateway: '' @ i) gws"
      with assms c d Inr have "terminated' = t2" "errors' = errors" "s' = s2"
        by (simp_all add: nuke_nat_block_def)
      with a t1 Inr show ?thesis
        by (intro exI [of _ r] exI [of _ "map (\<lambda>i. DeleteNatGateway i (Inr ())) gws"])
           (simp add: List.map_filter_simps succeeded_line_deleted failed_line_deleted)
    next
      fix e before g rest
      assume a: "r2 = Inl e" "gws = before @ g # rest"
        "trace s2 = trace s1 @ map (\<lambda>i. DeleteNatGateway i (Inr ())) before @ [DeleteNatGateway g (Inl e)]"
        "t2 = terminated @ map (\<lambda>i. ''Deleted NAT Gateway: '' @ i) before"
      with assms c d Inr have "terminated' = t2" "errors' = errors @ [''NAT Gateway: '' @ e]" "s' = s2"
        by (simp_all add: nuke_nat_block_def)
      with a t1 Inr show ?thesis
        by (intro exI [of _ r]
              exI [of _ "map (\<lambda>i. DeleteNatGateway i (Inr ())) before @ [DeleteNatGateway g (Inl e)]"])
           (auto simp: List.map_filter_simps map_filter_append succeeded_line_deleted failed_line_deleted)
    qed
  qed
qed

lemma nuke_rds_block_trace:
  assumes "nuke_rds_block P (terminated, errors) s = ((terminated', errors'), s')"
  shows "\<exists>r rds. trace s' = trace s @ DescribeDbInstances r # rds
     \<and> ((\<exists>e. r = Inl e \<and> rds = [])
        \<or> (\<exists>dbs results. r = Inr dbs \<and> length results = length (available_ids dbs)
              \<and> rds = map2 StopDbInstance (available_ids dbs) results))
     \<and> terminated' = terminated @ List.map_filter succeeded_line (DescribeDbInstances r # rds)
     \<and> errors' = errors @ List.map_filter failed_line (DescribeDbInstances r # rds)"
proof -
  obtain r s1 where c: "call (rds_describe_db_instances P) DescribeDbInstances s = (r, s1)"
    by (cases "call (rds_describe_db_instances P) DescribeDbInstances s")
  have t1: "trace s1 = trace s @ [DescribeDbInstances r]"
    by (rule call_trace [OF c])
  show ?thesis
  proof (cases r)
    case (Inl e)
    with assms c have "terminated' = terminated" "errors' = errors @ [''RDS: '' @ e]" "s' = s1"
      by (simp_all add: nuke_rds_block_def)
    with t1 Inl show ?thesis
      by (intro exI [of _ r] exI [of _ "[]"]) (simp add: List.map_filter_simps)
  next
    case (Inr dbs)
    obtain t2 s2 where d: "stop_db_instances P dbs terminated s1 = (t2, s2)"
      by (cases "stop_db_instances P dbs terminated s1")
    from stop_db_instances_trace [OF d] obtain results
      where len: "length results = length (available_ids dbs)"
        and tr: "trace s2 = trace s1 @ map2 StopDbInstance (available_ids dbs) results"
        and te: "t2 = terminated @ List.map_filter succeeded_line (map2 StopDbInstance (available_ids dbs) results)"
      by (auto simp: available_ids_def)
    from assms c d Inr have "terminated' = t2" "errors' = errors" "s' = s2"
      by (simp_all add: nuke_rds_block_def)
    with len tr te t1 Inr show ?thesis
      by (intro exI [of _ r] exI [of _ "map2 StopDbInstance (available_ids dbs) results"])
         (auto simp: List.map_filter_simps failed_line_stop_db)
  qed
qed

lemma execute_resource_nuke_skip:
  assumes "\<not> enable_nuke P" and "execute_resource_nuke P s = (result, s')"
  shows "result = Skipped ''auto_nuke_disabled''
     \<and> (\<exists>req res. trace s' = trace s @ [GetEnv ''ENABLE_AUTO_NUKE'', GetEnv ''NUKE_DRY_RUN'', GetEnv ''NTFY_TOPIC'',
                                         GetEnv ''NTFY_SERVER'', GetEnv ''NTFY_TOKEN'', UrlOpen req res]
           \<and> map_of (headers req) ''Title'' = Some ''Nuke Skipped - Manual Action Required''
           \<and> map_of (headers req) ''Priority'' = Some ''high''
           \<and> data req = skipped_message)"
proof -
  define s3 where "s3 = s\<lparr>trace := trace s @ [GetEnv ''ENABLE_AUTO_NUKE'', GetEnv ''NUKE_DRY_RUN'', GetEnv ''NTFY_TOPIC'']\<rparr>"
  define topic where "topic = environ_value P ''NTFY_TOPIC'' ''aws-cost-alerts''"
  obtain sent s4 where n: "send_ntfy_alert P topic ''Nuke Skipped - Manual Action Required''
                  skipped_message ''high'' (Some [''hand'', ''warning'']) s3 = (sent, s4)"
    by (cases "send_ntfy_alert P topic ''Nuke Skipped - Manual Action Required''
                  skipped_message ''high'' (Some [''hand'', ''warning'']) s3")
  have r: "result = Skipped ''auto_nuke_disabled''" "s' = s4"
    using assms n
    by (simp_all add: execute_resource_nuke_def environ_get_def enable_nuke_def s3_def topic_def)
  from send_ntfy_alert_trace [OF n] r show ?thesis
    by (auto simp: s3_def)
qed

lemma execute_resource_nuke_dry_run:
  assumes "enable_nuke P" and "dry_run P" and "execute_resource_nuke P s = (result, s')"
  shows "\<exists>resources inv req res. result = DryRun resources
     \<and> trace s' = trace s @ [GetEnv ''ENABLE_AUTO_NUKE'', GetEnv ''NUKE_DRY_RUN'', GetEnv ''NTFY_TOPIC'']
                   @ inv @ [GetEnv ''NTFY_SERVER'', GetEnv ''NTFY_TOKEN'', UrlOpen req res]
     \<and> (\<forall>e \<in> set inv. is_inventory e)
     \<and> map_of (headers req) ''Title'' = Some ''Nuke DRY RUN''
     \<and> map_of (headers req) ''Priority'' = Some ''high''
     \<and> data req = dry_run_message resources"
proof -
  define s3 where "s3 = s\<lparr>trace := trace s @ [GetEnv ''ENABLE_AUTO_NUKE'', GetEnv ''NUKE_DRY_RUN'', GetEnv ''NTFY_TOPIC'']\<rparr>"
  define topic where "topic = environ_value P ''NTFY_TOPIC'' ''aws-cost-alerts''"
  obtain resources s4 where l: "list_active_resources P s3 = (resources, s4)"
    by (cases "list_active_resources P s3")
  obtain sent s5 where n: "send_ntfy_alert P topic ''Nuke DRY RUN''
                  (dry_run_message resources) ''high'' (Some [''test_tube'', ''warning'']) s4 = (sent, s5)"
    by (cases "send_ntfy_alert P topic ''Nuke DRY RUN''
                  (dry_run_message resources) ''high'' (Some [''test_tube'', ''warning'']) s4")
  have r: "result = DryRun resources" "s' = s5"
    using assms l n
    by (simp_all add: execute_resource_nuke_def environ_get_def enable_nuke_def dry_run_def s3_def topic_def)
  from list_active_resources_trace [OF l] obtain inv
    where t4: "trace s4 = trace s3 @ inv" and inv: "\<forall>e \<in> set inv. is_inventory e"
    by fastforce
  from send_ntfy_alert_trace [OF n] obtain req res
    where t5: "trace s5 = trace s4 @ [GetEnv ''NTFY_SERVER'', GetEnv ''NTFY_TOKEN'', UrlOpen req res]"
      and hd: "map_of (headers req) ''Title'' = Some ''Nuke DRY RUN''"
        "map_of (headers req) ''Priority'' = Some ''high''" "data req = dry_run_message resources"
    by blast
  have "trace s' = trace s @ [GetEnv ''ENABLE_AUTO_NUKE'', GetEnv ''NUKE_DRY_RUN'', GetEnv ''NTFY_TOPIC'']
                   @ inv @ [GetEnv ''NTFY_SERVER'', GetEnv ''NTFY_TOKEN'', UrlOpen req res]"
    using r t4 t5 by (simp add: s3_def)
  with r inv hd show ?thesis by blast
qed

lemma execute_resource_nuke_execute:
  assumes "enable_nuke P" and "\<not> dry_run P" and "execute_resource_nuke P s = (result, s')"
  shows "\<exists>r1 ec2 r2 nat r3 rds req res.
       trace s' = trace s @ [GetEnv ''ENABLE_AUTO_NUKE'', GetEnv ''NUKE_DRY_RUN'', GetEnv ''NTFY_TOPIC'']
                   @ (DescribeInstances [''running''] r1 # ec2)
                   @ (DescribeNatGateways [''available''] r2 # nat)
                   @ (DescribeDbInstances r3 # rds)
                   @ [GetEnv ''NTFY_SERVER'', GetEnv ''NTFY_TOKEN'', UrlOpen req res]
     \<and> ((\<exists>e. r1 = Inl e \<and> ec2 = [])
        \<or> (\<exists>reservations. r1 = Inr reservations \<and> concat reservations = [] \<and> ec2 = [])
        \<or> (\<exists>reservations res. r1 = Inr reservations \<and> concat reservations \<noteq> []
              \<and> ec2 = [StopInstances (concat reservations) res]))
     \<and> ((\<exists>e. r2 = Inl e \<and> nat = [])
        \<or> (\<exists>gws. r2 = Inr gws \<and> nat = map (\<lambda>i. DeleteNatGateway i (Inr ())) gws)
        \<or> (\<exists>before g rest e. r2 = Inr (before @ g # rest)
              \<and> nat = map (\<lambda>i. DeleteNatGateway i (Inr ())) before @ [DeleteNatGateway g (Inl e)]))
     \<and> ((\<exists>e. r3 = Inl e \<and> rds = [])
        \<or> (\<exists>dbs results. r3 = Inr dbs \<and> length results = length (available_ids dbs)
              \<and> rds = map2 StopDbInstance (available_ids dbs) results))
     \<and> result = Executed
          (List.map_filter succeeded_line
             ((DescribeInstances [''running''] r1 # ec2) @ (DescribeNatGateways [''available''] r2 # nat)
               @ (DescribeDbInstances r3 # rds)))
          (List.map_filter failed_line
             ((DescribeInstances [''running''] r1 # ec2) @ (DescribeNatGateways [''available''] r2 # nat)
               @ (DescribeDbInstances r3 # rds)))
     \<and> map_of (headers req) ''Title'' = Some ''Resource Nuke Complete''
     \<and> map_of (headers req) ''Priority'' = Some ''urgent''
     \<and> (\<exists>terminated errors. result = Executed terminated errors
            \<and> data req = executed_message terminated errors)"
proof -
  define s3 where "s3 = s\<lparr>trace := trace s @ [GetEnv ''ENABLE_AUTO_NUKE'', GetEnv ''NUKE_DRY_RUN'', GetEnv ''NTFY_TOPIC'']\<rparr>"
  define topic where "topic = environ_value P ''NTFY_TOPIC'' ''aws-cost-alerts''"
  obtain t1 e1 s4 where b1: "nuke_ec2_block P ([], []) s3 = ((t1, e1), s4)"
    by (cases "nuke_ec2_block P ([], []) s3") auto
  obtain t2 e2 s5 where b2: "nuke_nat_block P (t1, e1) s4 = ((t2, e2), s5)"
    by (cases "nuke_nat_block P (t1, e1) s4") auto
  obtain t3 e3 s6 where b3: "nuke_rds_block P (t2, e2) s5 = ((t3, e3), s6)"
    by (cases "nuke_rds_block P (t2, e2) s5") auto
  obtain sent s7 where n: "send_ntfy_alert P topic ''Resource Nuke Complete''
                  (executed_message t3 e3) ''urgent'' (Some [''skull'', ''check'']) s6 = (sent, s7)"
    by (cases "send_ntfy_alert P topic ''Resource Nuke Complete''
                  (executed_message t3 e3) ''urgent'' (Some [''skull'', ''check'']) s6")
  have r: "result = Executed t3 e3" "s' = s7"
    using assms b1 b2 b3 n
    by (simp_all add: execute_resource_nuke_def environ_get_def enable_nuke_def dry_run_def s3_def topic_def)
  from nuke_ec2_block_trace [OF b1] obtain r1 ec2
    where tr1: "trace s4 = trace s3 @ DescribeInstances [''running''] r1 # ec2"
      and sh1: "(\<exists>e. r1 = Inl e \<and> ec2 = [])
        \<or> (\<exists>reservations. r1 = Inr reservations \<and> concat reservations = [] \<and> ec2 = [])
        \<or> (\<exists>reservations res. r1 = Inr reservations \<and> concat reservations \<noteq> []
              \<and> ec2 = [StopInstances (concat reservations) res])"
      and te1: "t1 = [] @ List.map_filter succeeded_line (DescribeInstances [''running''] r1 # ec2)"
      and er1: "e1 = [] @ List.map_filter failed_line (DescribeInstances [''running''] r1 # ec2)"
    by blast
  from nuke_nat_block_trace [OF b2] obtain r2 nat
    where tr2: "trace s5 = trace s4 @ DescribeNatGateways [''available''] r2 # nat"
      and sh2: "(\<exists>e. r2 = Inl e \<and> nat = [])
        \<or> (\<exists>gws. r2 = Inr gws \<and> nat = map (\<lambda>i. DeleteNatGateway i (Inr ())) gws)
        \<or> (\<exists>before g rest e. r2 = Inr (before @ g # rest)
              \<and> nat = map (\<lambda>i. DeleteNatGateway i (Inr ())) before @ [DeleteNatGateway g (Inl e)])"
      and te2: "t2 = t1 @ List.map_filter succeeded_line (DescribeNatGateways [''available''] r2 # nat)"
      and er2: "e2 = e1 @ List.map_filter failed_line (DescribeNatGateways [''available''] r2 # nat)"
    by blast
  from nuke_rds_block_trace [OF b3] obtain r3 rds
    where tr3: "trace s6 = trace s5 @ DescribeDbInstances r3 # rds"
      and sh3: "(\<exists>e. r3 = Inl e \<and> rds = [])
        \<or> (\<exists>dbs results. r3 = Inr dbs \<and> length results = length (available_ids dbs)
              \<and> rds = map2 StopDbInstance (available_ids dbs) results)"
      and te3: "t3 = t2 @ List.map_filter succeeded_line (DescribeDbInstances r3 # rds)"
      and er3: "e3 = e2 @ List.map_filter failed_line (DescribeDbInstances r3 # rds)"
    by blast
  from send_ntfy_alert_trace [OF n] obtain req res
    where tr4: "trace s7 = trace s6 @ [GetEnv ''NTFY_SERVER'', GetEnv ''NTFY_TOKEN'', UrlOpen req res]"
      and hd: "map_of (headers req) ''Title'' = Some ''Resource Nuke Complete''"
        "map_of (headers req) ''Priority'' = Some ''urgent''" "data req = executed_message t3 e3"
    by blast
  have tr: "trace s' = trace s @ [GetEnv ''ENABLE_AUTO_NUKE'', GetEnv ''NUKE_DRY_RUN'', GetEnv ''NTFY_TOPIC'']
                   @ (DescribeInstances [''running''] r1 # ec2)
                   @ (DescribeNatGateways [''available''] r2 # nat)
                   @ (DescribeDbInstances r3 # rds)
                   @ [GetEnv ''NTFY_SERVER'', GetEnv ''NTFY_TOKEN'', UrlOpen req res]"
    using r tr1 tr2 tr3 tr4 by (simp add: s3_def)
  have t3: "t3 = List.map_filter succeeded_line
             ((DescribeInstances [''running''] r1 # ec2) @ (DescribeNatGateways [''available''] r2 # nat)
               @ (DescribeDbInstances r3 # rds))"
    using te1 te2 te3 by (simp only: map_filter_append append_Nil append_assoc)
  have e3: "e3 = List.map_filter failed_line
             ((DescribeInstances [''running''] r1 # ec2) @ (DescribeNatGateways [''available''] r2 # nat)
               @ (DescribeDbInstances r3 # rds))"
    using er1 er2 er3 by (simp only: map_filter_append append_Nil append_assoc)
  have res: "result = Executed
          (List.map_filter succeeded_line
             ((DescribeInstances [''running''] r1 # ec2) @ (DescribeNatGateways [''available''] r2 # nat)
               @ (DescribeDbInstances r3 # rds)))
          (List.map_filter failed_line
             ((DescribeInstances [''running''] r1 # ec2) @ (DescribeNatGateways [''available''] r2 # nat)
               @ (DescribeDbInstances r3 # rds)))"
    using r t3 e3 by simp
  have msg: "\<exists>terminated errors. result = Executed terminated errors
            \<and> data req = executed_message terminated errors"
    using r hd by blast
  show ?thesis
    using tr sh1 sh2 sh3 res hd(1,2) msg by blast
qed

lemma get_current_month_costs_trace:
  assumes "get_current_month_costs P s = (Inr info, s')"
  shows "\<exists>a b results. trace s' = trace s @ [GetCostAndUsage a b (Inr results)]"
  using assms
  by (auto simp: get_current_month_costs_def call_def Let_def split: prod.splits sum.splits)

lemma get_forecasted_month_end_cost_trace:
  assumes "get_forecasted_month_end_cost P s = (forecast, s')"
  shows "\<exists>c d fr. trace s' = trace s @ [GetCostForecast c d fr]"
  using assms
  by (auto simp: get_forecasted_month_end_cost_def call_def split: prod.splits sum.splits)

lemma lambda_handler_returns:
  assumes "lambda_handler P s = (Inr r, s')"
  shows "\<exists>alert crit info a b c d results fr s5.
      py_float P (environ_value P ''ALERT_THRESHOLD'' ''10'') = Some alert
    \<and> py_float P (environ_value P ''CRITICAL_THRESHOLD'' ''50'') = Some crit
    \<and> trace s5 = trace s @ [GetEnv ''ALERT_THRESHOLD'', GetEnv ''CRITICAL_THRESHOLD'', GetEnv ''NTFY_TOPIC'',
                            GetCostAndUsage a b (Inr results), GetCostForecast c d fr]
    \<and> statusCode r = 200 \<and> current_cost r = total_cost info
    \<and> alert_threshold r = alert \<and> critical_threshold r = crit
    \<and> ((total_cost info \<ge> crit \<and> nuke_triggered r \<and> alert_sent r
          \<and> (\<exists>result. nuke_result r = Some result
                \<and> execute_resource_nuke P (trigger_nuke_warning P info crit s5) = (result, s')))
      \<or> (\<not> total_cost info \<ge> crit \<and> total_cost info \<ge> alert
          \<and> \<not> nuke_triggered r \<and> alert_sent r \<and> nuke_result r = None
          \<and> (\<exists>sent msg. send_ntfy_alert P (environ_value P ''NTFY_TOPIC'' ''aws-cost-alerts'')
                  (''AWS Cost Alert: $'' @ py_str P (total_cost info)) msg ''high''
                  (Some [''warning'', ''dollar'']) s5 = (sent, s')))
      \<or> (\<not> total_cost info \<ge> crit \<and> \<not> total_cost info \<ge> alert
          \<and> \<not> nuke_triggered r \<and> \<not> alert_sent r \<and> nuke_result r = None
          \<and> ((lower (environ_value P ''SEND_DAILY_SUMMARY'' ''false'') = ''true''
                \<and> (\<exists>sent msg. send_ntfy_alert P (environ_value P ''NTFY_TOPIC'' ''aws-cost-alerts'')
                      (''AWS Cost Summary: $'' @ py_str P (total_cost info)) msg ''low''
                      (Some [''chart_with_upwards_trend'', ''white_check_mark''])
                      (s5\<lparr>trace := trace s5 @ [GetEnv ''SEND_DAILY_SUMMARY'']\<rparr>) = (sent, s')))
             \<or> (lower (environ_value P ''SEND_DAILY_SUMMARY'' ''false'') \<noteq> ''true''
                \<and> trace s' = trace s5 @ [GetEnv ''SEND_DAILY_SUMMARY'']))))"
proof -
  define s3 where "s3 = s\<lparr>trace := trace s @ [GetEnv ''ALERT_THRESHOLD'', GetEnv ''CRITICAL_THRESHOLD'', GetEnv ''NTFY_TOPIC'']\<rparr>"
  obtain alert where fa: "py_float P (environ_value P ''ALERT_THRESHOLD'' ''10'') = Some alert"
    using assms
    by (cases "py_float P (environ_value P ''ALERT_THRESHOLD'' ''10'')")
       (auto simp: lambda_handler_def environ_get_def)
  obtain crit where fc: "py_float P (environ_value P ''CRITICAL_THRESHOLD'' ''50'') = Some crit"
    using assms fa
    by (cases "py_float P (environ_value P ''CRITICAL_THRESHOLD'' ''50'')")
       (auto simp: lambda_handler_def environ_get_def)
  obtain ci s4 where gc: "get_current_month_costs P s3 = (ci, s4)"
    by (cases "get_current_month_costs P s3")
  obtain info where ci: "ci = Inr info"
    using assms fa fc gc
    by (cases ci) (auto simp: lambda_handler_def environ_get_def s3_def)
  obtain forecast s5 where gf: "get_forecasted_month_end_cost P s4 = (forecast, s5)"
    by (cases "get_forecasted_month_end_cost P s4")
  from get_current_month_costs_trace [OF gc [unfolded ci]] obtain a b results
    where t4: "trace s4 = trace s3 @ [GetCostAndUsage a b (Inr results)]"
    by blast
  from get_forecasted_month_end_cost_trace [OF gf] obtain c d fr
    where t5: "trace s5 = trace s4 @ [GetCostForecast c d fr]"
    by blast
  have tr: "trace s5 = trace s @ [GetEnv ''ALERT_THRESHOLD'', GetEnv ''CRITICAL_THRESHOLD'', GetEnv ''NTFY_TOPIC'',
                            GetCostAndUsage a b (Inr results), GetCostForecast c d fr]"
    using t4 t5 by (simp add: s3_def)
  have body: "statusCode r = 200 \<and> current_cost r = total_cost info
    \<and> alert_threshold r = alert \<and> critical_threshold r = crit
    \<and> ((total_cost info \<ge> crit \<and> nuke_triggered r \<and> alert_sent r
          \<and> (\<exists>result. nuke_result r = Some result
                \<and> execute_resource_nuke P (trigger_nuke_warning P info crit s5) = (result, s')))
      \<or> (\<not> total_cost info \<ge> crit \<and> total_cost info \<ge> alert
          \<and> \<not> nuke_triggered r \<and> alert_sent r \<and> nuke_result r = None
          \<and> (\<exists>sent msg. send_ntfy_alert P (environ_value P ''NTFY_TOPIC'' ''aws-cost-alerts'')
                  (''AWS Cost Alert: $'' @ py_str P (total_cost info)) msg ''high''
                  (Some [''warning'', ''dollar'']) s5 = (sent, s')))
      \<or> (\<not> total_cost info \<ge> crit \<and> \<not> total_cost info \<ge> alert
          \<and> \<not> nuke_triggered r \<and> \<not> alert_sent r \<and> nuke_result r = None
          \<and> ((lower (environ_value P ''SEND_DAILY_SUMMARY'' ''false'') = ''true''
                \<and> (\<exists>sent msg. send_ntfy_alert P (environ_value P ''NTFY_TOPIC'' ''aws-cost-alerts'')
                      (''AWS Cost Summary: $'' @ py_str P (total_cost info)) msg ''low''
                      (Some [''chart_with_upwards_trend'', ''white_check_mark''])
                      (s5\<lparr>trace := trace s5 @ [GetEnv ''SEND_DAILY_SUMMARY'']\<rparr>) = (sent, s')))
             \<or> (lower (environ_value P ''SEND_DAILY_SUMMARY'' ''false'') \<noteq> ''true''
                \<and> trace s' = trace s5 @ [GetEnv ''SEND_DAILY_SUMMARY'']))))"
    using assms fa fc gc ci gf
    by (auto simp: lambda_handler_def environ_get_def s3_def Let_def split: prod.splits if_splits)
  show ?thesis
    using fa fc tr body by blast
qed

lemma lambda_handler_raises:
  assumes "lambda_handler P s = (Inl e, s')"
  shows "trace s' = trace s @ [GetEnv ''ALERT_THRESHOLD'']
       \<or> trace s' = trace s @ [GetEnv ''ALERT_THRESHOLD'', GetEnv ''CRITICAL_THRESHOLD'']
       \<or> (\<exists>a b m. trace s' = trace s @ [GetEnv ''ALERT_THRESHOLD'', GetEnv ''CRITICAL_THRESHOLD'',
                                         GetEnv ''NTFY_TOPIC'', GetCostAndUsage a b (Inl m)])"
  using assms
  by (auto simp: lambda_handler_def environ_get_def get_current_month_costs_def
        get_forecasted_month_end_cost_def call_def Let_def
      split: prod.splits option.splits sum.splits if_splits)

lemma execute_resource_nuke_gated:
  assumes "\<not> (enable_nuke P \<and> \<not> dry_run P)" and "execute_resource_nuke P s = (result, s')"
  shows "\<exists>evs. trace s' = trace s @ evs
       \<and> list_all (\<lambda>e. is_env_read e \<or> is_inventory e \<or> is_notification e) evs
       \<and> list_ex is_gate_read evs"
proof (cases "enable_nuke P")
  case False
  from execute_resource_nuke_skip [OF False assms(2)] obtain req res
    where "trace s' = trace s @ [GetEnv ''ENABLE_AUTO_NUKE'', GetEnv ''NUKE_DRY_RUN'', GetEnv ''NTFY_TOPIC'',
                                         GetEnv ''NTFY_SERVER'', GetEnv ''NTFY_TOKEN'', UrlOpen req res]"
    by blast
  then show ?thesis by simp
next
  case True
  with assms(1) have "dry_run P" by simp
  from execute_resource_nuke_dry_run [OF True this assms(2)] obtain inv req res
    where t: "trace s' = trace s @ [GetEnv ''ENABLE_AUTO_NUKE'', GetEnv ''NUKE_DRY_RUN'', GetEnv ''NTFY_TOPIC'']
                   @ inv @ [GetEnv ''NTFY_SERVER'', GetEnv ''NTFY_TOKEN'', UrlOpen req res]"
      and inv: "\<forall>e \<in> set inv. is_inventory e"
    by blast
  from inv have "list_all (\<lambda>e. is_env_read e \<or> is_inventory e \<or> is_notification e) inv"
    by (simp add: list_all_iff)
  with t show ?thesis by simp
qed


lemma execute_resource_nuke_extends:
  assumes "execute_resource_nuke P s = (result, s')"
  shows "\<exists>evs. trace s' = trace s @ GetEnv ''ENABLE_AUTO_NUKE'' # evs"
proof (cases "enable_nuke P \<and> \<not> dry_run P")
  case True
  then have "enable_nuke P" "\<not> dry_run P" by simp_all
  from execute_resource_nuke_execute [OF this assms] show ?thesis
    by (elim exE conjE) simp
next
  case False
  show ?thesis
  proof (cases "enable_nuke P")
    case e: False
    from execute_resource_nuke_skip [OF e assms] show ?thesis by auto
  next
    case e: True
    with False have "dry_run P" by simp
    from execute_resource_nuke_dry_run [OF e this assms] show ?thesis
      by (elim exE conjE) simp
  qed
qed

lemma invoke_returns:
  assumes "invoke P w = (Inr r, t)"
  obtains s' where "lambda_handler P \<lparr>world = w, trace = []\<rparr> = (Inr r, s')" and "t = trace s'"
  using assms by (auto simp: invoke_def split: prod.splits)

lemma invoke_cases:
  assumes "invoke P w = (Inr r, t)"
  obtains
    (critical) a b c d results fr inv req res result s1 s' where
      "critical_threshold r \<le> current_cost r" "nuke_triggered r" "alert_sent r"
      "nuke_result r = Some result"
      "trace s1 = [GetEnv ''ALERT_THRESHOLD'', GetEnv ''CRITICAL_THRESHOLD'', GetEnv ''NTFY_TOPIC'',
                   GetCostAndUsage a b (Inr results), GetCostForecast c d fr]
                  @ GetEnv ''NTFY_TOPIC'' # inv
                  @ [GetEnv ''NTFY_SERVER'', GetEnv ''NTFY_TOKEN'', UrlOpen req res]"
      "\<forall>e \<in> set inv. is_inventory e"
      "map_of (headers req) ''Title'' = Some ''CRITICAL: AWS Cost Emergency''"
      "map_of (headers req) ''Priority'' = Some ''urgent''"
      "execute_resource_nuke P s1 = (result, s')" "t = trace s'"
  | (alert) a b c d results fr req res where
      "\<not> critical_threshold r \<le> current_cost r" "alert_threshold r \<le> current_cost r"
      "\<not> nuke_triggered r" "alert_sent r" "nuke_result r = None"
      "t = [GetEnv ''ALERT_THRESHOLD'', GetEnv ''CRITICAL_THRESHOLD'', GetEnv ''NTFY_TOPIC'',
            GetCostAndUsage a b (Inr results), GetCostForecast c d fr,
            GetEnv ''NTFY_SERVER'', GetEnv ''NTFY_TOKEN'', UrlOpen req res]"
      "map_of (headers req) ''Title'' = Some (''AWS Cost Alert: $'' @ py_str P (current_cost r))"
      "map_of (headers req) ''Priority'' = Some ''high''"
  | (summary) a b c d results fr req res where
      "\<not> critical_threshold r \<le> current_cost r" "\<not> alert_threshold r \<le> current_cost r"
      "\<not> nuke_triggered r" "\<not> alert_sent r" "nuke_result r = None"
      "t = [GetEnv ''ALERT_THRESHOLD'', GetEnv ''CRITICAL_THRESHOLD'', GetEnv ''NTFY_TOPIC'',
            GetCostAndUsage a b (Inr results), GetCostForecast c d fr, GetEnv ''SEND_DAILY_SUMMARY'',
            GetEnv ''NTFY_SERVER'', GetEnv ''NTFY_TOKEN'', UrlOpen req res]"
      "map_of (headers req) ''Title'' = Some (''AWS Cost Summary: $'' @ py_str P (current_cost r))"
      "map_of (headers req) ''Priority'' = Some ''low''"
  | (quiet) a b c d results fr where
      "\<not> critical_threshold r \<le> current_cost r" "\<not> alert_threshold r \<le> current_cost r"
      "\<not> nuke_triggered r" "\<not> alert_sent r" "nuke_result r = None"
      "t = [GetEnv ''ALERT_THRESHOLD'', GetEnv ''CRITICAL_THRESHOLD'', GetEnv ''NTFY_TOPIC'',
            GetCostAndUsage a b (Inr results), GetCostForecast c d fr, GetEnv ''SEND_DAILY_SUMMARY'']"
proof -
  from assms obtain s' where run: "lambda_handler P \<lparr>world = w, trace = []\<rparr> = (Inr r, s')"
    and t: "t = trace s'"
    by (auto simp: invoke_def split: prod.splits)
  from lambda_handler_returns [OF run] obtain alert crit info a b c d results fr s5
    where t5': "trace s5 = trace \<lparr>world = w, trace = []\<rparr>
                     @ [GetEnv ''ALERT_THRESHOLD'', GetEnv ''CRITICAL_THRESHOLD'', GetEnv ''NTFY_TOPIC'',
                            GetCostAndUsage a b (Inr results), GetCostForecast c d fr]"
      and fields: "current_cost r = total_cost info" "alert_threshold r = alert" "critical_threshold r = crit"
      and branch: "(total_cost info \<ge> crit \<and> nuke_triggered r \<and> alert_sent r
          \<and> (\<exists>result. nuke_result r = Some result
                \<and> execute_resource_nuke P (trigger_nuke_warning P info crit s5) = (result, s')))
      \<or> (\<not> total_cost info \<ge> crit \<and> total_cost info \<ge> alert
          \<and> \<not> nuke_triggered r \<and> alert_sent r \<and> nuke_result r = None
          \<and> (\<exists>sent msg. send_ntfy_alert P (environ_value P ''NTFY_TOPIC'' ''aws-cost-alerts'')
                  (''AWS Cost Alert: $'' @ py_str P (total_cost info)) msg ''high''
                  (Some [''warning'', ''dollar'']) s5 = (sent, s')))
      \<or> (\<not> total_cost info \<ge> crit \<and> \<not> total_cost info \<ge> alert
          \<and> \<not> nuke_triggered r \<and> \<not> alert_sent r \<and> nuke_result r = None
          \<and> ((lower (environ_value P ''SEND_DAILY_SUMMARY'' ''false'') = ''true''
                \<and> (\<exists>sent msg. send_ntfy_alert P (environ_value P ''NTFY_TOPIC'' ''aws-cost-alerts'')
                      (''AWS Cost Summary: $'' @ py_str P (total_cost info)) msg ''low''
                      (Some [''chart_with_upwards_trend'', ''white_check_mark''])
                      (s5\<lparr>trace := trace s5 @ [GetEnv ''SEND_DAILY_SUMMARY'']\<rparr>) = (sent, s')))
             \<or> (lower (environ_value P ''SEND_DAILY_SUMMARY'' ''false'') \<noteq> ''true''
                \<and> trace s' = trace s5 @ [GetEnv ''SEND_DAILY_SUMMARY''])))"
    by blast
  from t5' have t5: "trace s5 = [GetEnv ''ALERT_THRESHOLD'', GetEnv ''CRITICAL_THRESHOLD'', GetEnv ''NTFY_TOPIC'',
                            GetCostAndUsage a b (Inr results), GetCostForecast c d fr]"
    by simp
  from branch show thesis
  proof (elim disjE conjE exE)
    fix result
    assume ge: "crit \<le> total_cost info" and flags: "nuke_triggered r" "alert_sent r"
      and res: "nuke_result r = Some result"
      and ex: "execute_resource_nuke P (trigger_nuke_warning P info crit s5) = (result, s')"
    from trigger_nuke_warning_trace [OF refl, of P info crit s5] obtain inv req res
      where tw: "trace (trigger_nuke_warning P info crit s5) = trace s5 @ GetEnv ''NTFY_TOPIC'' # inv
             @ [GetEnv ''NTFY_SERVER'', GetEnv ''NTFY_TOKEN'', UrlOpen req res]"
        and inv: "\<forall>e \<in> set inv. is_inventory e"
        and hd: "map_of (headers req) ''Title'' = Some ''CRITICAL: AWS Cost Emergency''"
          "map_of (headers req) ''Priority'' = Some ''urgent''"
      by blast
    have f1: "critical_threshold r \<le> current_cost r"
      using ge fields by simp
    have f2: "trace (trigger_nuke_warning P info crit s5) =
                  [GetEnv ''ALERT_THRESHOLD'', GetEnv ''CRITICAL_THRESHOLD'', GetEnv ''NTFY_TOPIC'',
                   GetCostAndUsage a b (Inr results), GetCostForecast c d fr]
                  @ GetEnv ''NTFY_TOPIC'' # inv
                  @ [GetEnv ''NTFY_SERVER'', GetEnv ''NTFY_TOKEN'', UrlOpen req res]"
      using tw t5 by simp
    have f3: "execute_resource_nuke P (trigger_nuke_warning P info crit s5) = (result, s')"
      using ex fields by simp
    show thesis
      by (rule critical [OF f1 flags res f2 inv hd f3 t])
  next
    fix sent msg
    assume lt: "\<not> crit \<le> total_cost info" and ge: "alert \<le> total_cost info"
      and flags: "\<not> nuke_triggered r" "alert_sent r" "nuke_result r = None"
      and n: "send_ntfy_alert P (environ_value P ''NTFY_TOPIC'' ''aws-cost-alerts'')
                  (''AWS Cost Alert: $'' @ py_str P (total_cost info)) msg ''high''
                  (Some [''warning'', ''dollar'']) s5 = (sent, s')"
    from send_ntfy_alert_trace [OF n] obtain req res
      where tr: "trace s' = trace s5 @ [GetEnv ''NTFY_SERVER'', GetEnv ''NTFY_TOKEN'', UrlOpen req res]"
        and hd: "map_of (headers req) ''Title'' = Some (''AWS Cost Alert: $'' @ py_str P (total_cost info))"
          "map_of (headers req) ''Priority'' = Some ''high''"
      by blast
    have f1: "\<not> critical_threshold r \<le> current_cost r" "alert_threshold r \<le> current_cost r"
      using lt ge fields by simp_all
    have f2: "t = [GetEnv ''ALERT_THRESHOLD'', GetEnv ''CRITICAL_THRESHOLD'', GetEnv ''NTFY_TOPIC'',
            GetCostAndUsage a b (Inr results), GetCostForecast c d fr,
            GetEnv ''NTFY_SERVER'', GetEnv ''NTFY_TOKEN'', UrlOpen req res]"
      using t tr t5 by simp
    have f3: "map_of (headers req) ''Title'' = Some (''AWS Cost Alert: $'' @ py_str P (current_cost r))"
      using hd fields by simp
    show thesis
      by (rule alert [OF f1 flags f2 f3 hd(2)])
  next
    fix sent msg
    assume lt: "\<not> crit \<le> total_cost info" "\<not> alert \<le> total_cost info"
      and flags: "\<not> nuke_triggered r" "\<not> alert_sent r" "nuke_result r = None"
      and n: "send_ntfy_alert P (environ_value P ''NTFY_TOPIC'' ''aws-cost-alerts'')
                      (''AWS Cost Summary: $'' @ py_str P (total_cost info)) msg ''low''
                      (Some [''chart_with_upwards_trend'', ''white_check_mark''])
                      (s5\<lparr>trace := trace s5 @ [GetEnv ''SEND_DAILY_SUMMARY'']\<rparr>) = (sent, s')"
    from send_ntfy_alert_trace [OF n] obtain req res
      where tr: "trace s' = (trace s5 @ [GetEnv ''SEND_DAILY_SUMMARY''])
                 @ [GetEnv ''NTFY_SERVER'', GetEnv ''NTFY_TOKEN'', UrlOpen req res]"
        and hd: "map_of (headers req) ''Title'' = Some (''AWS Cost Summary: $'' @ py_str P (total_cost info))"
          "map_of (headers req) ''Priority'' = Some ''low''"
      by auto
    have f1: "\<not> critical_threshold r \<le> current_cost r" "\<not> alert_threshold r \<le> current_cost r"
      using lt fields by simp_all
    have f2: "t = [GetEnv ''ALERT_THRESHOLD'', GetEnv ''CRITICAL_THRESHOLD'', GetEnv ''NTFY_TOPIC'',
            GetCostAndUsage a b (Inr results), GetCostForecast c d fr, GetEnv ''SEND_DAILY_SUMMARY'',
            GetEnv ''NTFY_SERVER'', GetEnv ''NTFY_TOKEN'', UrlOpen req res]"
      using t tr t5 by simp
    have f3: "map_of (headers req) ''Title'' = Some (''AWS Cost Summary: $'' @ py_str P (current_cost r))"
      using hd fields by simp
    show thesis
      by (rule summary [OF f1 flags f2 f3 hd(2)])
  next
    assume lt: "\<not> crit \<le> total_cost info" "\<not> alert \<le> total_cost info"
      and flags: "\<not> nuke_triggered r" "\<not> alert_sent r" "nuke_result r = None"
      and tr: "trace s' = trace s5 @ [GetEnv ''SEND_DAILY_SUMMARY'']"
    have f1: "\<not> critical_threshold r \<le> current_cost r" "\<not> alert_threshold r \<le> current_cost r"
      using lt fields by simp_all
    have f2: "t = [GetEnv ''ALERT_THRESHOLD'', GetEnv ''CRITICAL_THRESHOLD'', GetEnv ''NTFY_TOPIC'',
            GetCostAndUsage a b (Inr results), GetCostForecast c d fr, GetEnv ''SEND_DAILY_SUMMARY'']"
      using t tr t5 by simp
    show thesis
      by (rule quiet [OF f1 flags f2])
  qed
qed

lemma invoke_raises:
  assumes "invoke P w = (Inl e, t)"
  shows "t = [GetEnv ''ALERT_THRESHOLD'']
       \<or> t = [GetEnv ''ALERT_THRESHOLD'', GetEnv ''CRITICAL_THRESHOLD'']
       \<or> (\<exists>a b m. t = [GetEnv ''ALERT_THRESHOLD'', GetEnv ''CRITICAL_THRESHOLD'',
                           GetEnv ''NTFY_TOPIC'', GetCostAndUsage a b (Inl m)])"
proof -
  from assms obtain s' where run: "lambda_handler P \<lparr>world = w, trace = []\<rparr> = (Inl e, s')"
    and t: "t = trace s'"
    by (auto simp: invoke_def split: prod.splits)
  from lambda_handler_raises [OF run] t show ?thesis by simp
qed

lemma read_only_not_mutating:
  "list_all (\<lambda>e. is_env_read e \<or> is_cost_query e \<or> is_inventory e \<or> is_notification e) evs
     \<Longrightarrow> filter is_mutating evs = []"
proof (induction evs)
  case Nil
  then show ?case by simp
next
  case (Cons e evs)
  then show ?case by (cases e) simp_all
qed

lemma list_all_weaken:
  "list_all Q xs \<Longrightarrow> (\<And>x. Q x \<Longrightarrow> R x) \<Longrightarrow> list_all R xs"
  by (induction xs) simp_all

lemma set_map_filter:
  "set (List.map_filter f xs) = {y. \<exists>x \<in> set xs. f x = Some y}"
  by (induction xs) (auto simp: List.map_filter_simps split: option.splits)

lemma stop_db_events:
  "x \<in> set (map2 StopDbInstance ids results) \<Longrightarrow> is_mutating x \<and> \<not> is_nat_delete x \<and> \<not> is_notification x"
  by (auto simp: in_set_zip)

lemma deleted_events:
  "x \<in> set (map (\<lambda>i. DeleteNatGateway i (Inr ())) gws) \<Longrightarrow> is_mutating x \<and> is_nat_delete x \<and> \<not> is_notification x"
  by auto

lemma filter_id:
  "(\<And>x. x \<in> set xs \<Longrightarrow> Q x) \<Longrightarrow> filter Q xs = xs"
  by (induction xs) simp_all

lemma filter_none:
  "(\<And>x. x \<in> set xs \<Longrightarrow> \<not> Q x) \<Longrightarrow> filter Q xs = []"
  by (induction xs) simp_all



lemmas run_defs =
  invoke_def lambda_handler_def environ_get_def environ_value_def get_current_month_costs_def
  get_forecasted_month_end_cost_def call_def send_ntfy_alert_def list_active_resources_def
  trigger_nuke_warning_def execute_resource_nuke_def nuke_ec2_block_def nuke_nat_block_def
  nuke_rds_block_def lower_def lower_char_def Let_def

lemma demo_skip_run:
  "fst (invoke demo ()) = Inr \<lparr>statusCode = 200, current_cost = 60, alert_threshold = 10,
         critical_threshold = 50, forecasted_cost = None, alert_sent = True,
         nuke_triggered = True,
         nuke_result = Some (Skipped ''auto_nuke_disabled'')\<rparr>"
  by (simp add: run_defs demo_def)

lemma demo_swapped_run:
  "fst (invoke demo_swapped ()) = Inr \<lparr>statusCode = 200, current_cost = 60, alert_threshold = 100,
         critical_threshold = 50, forecasted_cost = None, alert_sent = True,
         nuke_triggered = True,
         nuke_result = Some (Skipped ''auto_nuke_disabled'')\<rparr>"
  by (simp add: run_defs demo_swapped_def demo_def)

lemma demo_dry_run_run:
  "fst (invoke demo_dry_run ()) = Inr \<lparr>statusCode = 200, current_cost = 60, alert_threshold = 10,
         critical_threshold = 50, forecasted_cost = None, alert_sent = True,
         nuke_triggered = True,
         nuke_result = Some (DryRun [''EC2 Instances: 2'', ''RDS Instances: 1'', ''NAT Gateways: 3''])\<rparr>"
  by (simp add: run_defs demo_dry_run_def demo_def str_nat.simps digit_char_def)

lemma demo_execute_run:
  "fst (invoke demo_execute ()) = Inr \<lparr>statusCode = 200, current_cost = 60, alert_threshold = 10,
         critical_threshold = 50, forecasted_cost = None, alert_sent = True,
         nuke_triggered = True,
         nuke_result = Some (Executed [''Deleted NAT Gateway: nat-1'']
              [''EC2: UnauthorizedOperation'', ''NAT Gateway: DependencyViolation''])\<rparr>"
  by (simp add: run_defs demo_execute_def demo_def)


subsection \<open>Tier classification\<close>

text \<open>
  Claim C1. The tier is a function of the month's total and the two thresholds alone:
  critical when the total is at least the critical threshold, otherwise alert when it is at
  least the alert threshold, otherwise normal. Both comparisons include equality, and the
  critical comparison comes first whatever the order of the two thresholds. The branch the
  handler takes is read from the response it returns and from the notifications in its
  trace; the thresholds are what \<^verbatim>\<open>float\<close> makes of the two environment variables.
\<close>

theorem tier_classification:
  assumes "invoke P w = (Inr r, t)"
  shows "tier_of_response r = classify_spec (current_cost r) (alert_threshold r) (critical_threshold r)
     \<and> tier_of_trace t = classify_spec (current_cost r) (alert_threshold r) (critical_threshold r)
     \<and> py_float P (environ_value P ''ALERT_THRESHOLD'' ''10'') = Some (alert_threshold r)
     \<and> py_float P (environ_value P ''CRITICAL_THRESHOLD'' ''50'') = Some (critical_threshold r)"
proof -
  from assms obtain s' where run: "lambda_handler P \<lparr>world = w, trace = []\<rparr> = (Inr r, s')"
    and t: "t = trace s'"
    by (rule invoke_returns)
  from lambda_handler_returns [OF run] obtain alert crit info a b c d results fr s5
    where fa: "py_float P (environ_value P ''ALERT_THRESHOLD'' ''10'') = Some alert"
      and fc: "py_float P (environ_value P ''CRITICAL_THRESHOLD'' ''50'') = Some crit"
      and t5': "trace s5 = trace \<lparr>world = w, trace = []\<rparr>
                     @ [GetEnv ''ALERT_THRESHOLD'', GetEnv ''CRITICAL_THRESHOLD'', GetEnv ''NTFY_TOPIC'',
                            GetCostAndUsage a b (Inr results), GetCostForecast c d fr]"
      and fields: "current_cost r = total_cost info" "alert_threshold r = alert" "critical_threshold r = crit"
      and branch: "(total_cost info \<ge> crit \<and> nuke_triggered r \<and> alert_sent r
          \<and> (\<exists>result. nuke_result r = Some result
                \<and> execute_resource_nuke P (trigger_nuke_warning P info crit s5) = (result, s')))
      \<or> (\<not> total_cost info \<ge> crit \<and> total_cost info \<ge> alert
          \<and> \<not> nuke_triggered r \<and> alert_sent r \<and> nuke_result r = None
          \<and> (\<exists>sent msg. send_ntfy_alert P (environ_value P ''NTFY_TOPIC'' ''aws-cost-alerts'')
                  (''AWS Cost Alert: $'' @ py_str P (total_cost info)) msg ''high''
                  (Some [''warning'', ''dollar'']) s5 = (sent, s')))
      \<or> (\<not> total_cost info \<ge> crit \<and> \<not> total_cost info \<ge> alert
          \<and> \<not> nuke_triggered r \<and> \<not> alert_sent r \<and> nuke_result r = None
          \<and> ((lower (environ_value P ''SEND_DAILY_SUMMARY'' ''false'') = ''true''
                \<and> (\<exists>sent msg. send_ntfy_alert P (environ_value P ''NTFY_TOPIC'' ''aws-cost-alerts'')
                      (''AWS Cost Summary: $'' @ py_str P (total_cost info)) msg ''low''
                      (Some [''chart_with_upwards_trend'', ''white_check_mark''])
                      (s5\<lparr>trace := trace s5 @ [GetEnv ''SEND_DAILY_SUMMARY'']\<rparr>) = (sent, s')))
             \<or> (lower (environ_value P ''SEND_DAILY_SUMMARY'' ''false'') \<noteq> ''true''
                \<and> trace s' = trace s5 @ [GetEnv ''SEND_DAILY_SUMMARY''])))"
    by blast
  from t5' have t5: "trace s5 = [GetEnv ''ALERT_THRESHOLD'', GetEnv ''CRITICAL_THRESHOLD'', GetEnv ''NTFY_TOPIC'',
                            GetCostAndUsage a b (Inr results), GetCostForecast c d fr]"
    by simp
  from branch
  have "tier_of_response r = classify_spec (total_cost info) alert crit
      \<and> tier_of_trace (trace s') = classify_spec (total_cost info) alert crit"
  proof (elim disjE conjE exE)
    fix result
    assume ge: "crit \<le> total_cost info" and flags: "nuke_triggered r" "alert_sent r"
      and ex: "execute_resource_nuke P (trigger_nuke_warning P info crit s5) = (result, s')"
    from trigger_nuke_warning_trace [OF refl, of P info crit s5] obtain inv req res
      where tw: "trace (trigger_nuke_warning P info crit s5) = trace s5 @ GetEnv ''NTFY_TOPIC'' # inv
             @ [GetEnv ''NTFY_SERVER'', GetEnv ''NTFY_TOKEN'', UrlOpen req res]"
        and title: "map_of (headers req) ''Title'' = Some ''CRITICAL: AWS Cost Emergency''"
      by blast
    from execute_resource_nuke_extends [OF ex] obtain evs
      where "trace s' = trace (trigger_nuke_warning P info crit s5) @ GetEnv ''ENABLE_AUTO_NUKE'' # evs"
      by blast
    with tw have "UrlOpen req res \<in> set (trace s')" by simp
    with title have "list_ex (has_title ''CRITICAL: AWS Cost Emergency'') (trace s')"
      unfolding list_ex_iff by (intro bexI [of _ "UrlOpen req res"]) simp_all
    with ge flags show ?thesis
      by (simp add: tier_of_response_def tier_of_trace_def classify_spec_def)
  next
    fix sent msg
    assume lt: "\<not> crit \<le> total_cost info" and ge: "alert \<le> total_cost info"
      and flags: "\<not> nuke_triggered r" "alert_sent r"
      and n: "send_ntfy_alert P (environ_value P ''NTFY_TOPIC'' ''aws-cost-alerts'')
                  (''AWS Cost Alert: $'' @ py_str P (total_cost info)) msg ''high''
                  (Some [''warning'', ''dollar'']) s5 = (sent, s')"
    from send_ntfy_alert_trace [OF n] obtain req res
      where "trace s' = trace s5 @ [GetEnv ''NTFY_SERVER'', GetEnv ''NTFY_TOKEN'', UrlOpen req res]"
        and "map_of (headers req) ''Title'' = Some (''AWS Cost Alert: $'' @ py_str P (total_cost info))"
      by blast
    with t5 lt ge flags show ?thesis
      by (simp add: tier_of_response_def tier_of_trace_def classify_spec_def)
  next
    fix sent msg
    assume lt: "\<not> crit \<le> total_cost info" "\<not> alert \<le> total_cost info"
      and flags: "\<not> nuke_triggered r" "\<not> alert_sent r"
      and n: "send_ntfy_alert P (environ_value P ''NTFY_TOPIC'' ''aws-cost-alerts'')
                      (''AWS Cost Summary: $'' @ py_str P (total_cost info)) msg ''low''
                      (Some [''chart_with_upwards_trend'', ''white_check_mark''])
                      (s5\<lparr>trace := trace s5 @ [GetEnv ''SEND_DAILY_SUMMARY'']\<rparr>) = (sent, s')"
    from send_ntfy_alert_trace [OF n] obtain req res
      where "trace s' = (trace s5 @ [GetEnv ''SEND_DAILY_SUMMARY''])
                 @ [GetEnv ''NTFY_SERVER'', GetEnv ''NTFY_TOKEN'', UrlOpen req res]"
        and "map_of (headers req) ''Title'' = Some (''AWS Cost Summary: $'' @ py_str P (total_cost info))"
      by auto
    with t5 lt flags show ?thesis
      by (simp add: tier_of_response_def tier_of_trace_def classify_spec_def)
  next
    assume lt: "\<not> crit \<le> total_cost info" "\<not> alert \<le> total_cost info"
      and flags: "\<not> nuke_triggered r" "\<not> alert_sent r"
      and "trace s' = trace s5 @ [GetEnv ''SEND_DAILY_SUMMARY'']"
    with t5 show ?thesis
      by (simp add: tier_of_response_def tier_of_trace_def classify_spec_def)
  qed
  with fa fc fields t show ?thesis by simp
qed

theorem tier_classification_witness:
  "fst (invoke demo_swapped ()) = Inr \<lparr>statusCode = 200, current_cost = 60, alert_threshold = 100,
         critical_threshold = 50, forecasted_cost = None, alert_sent = True,
         nuke_triggered = True,
         nuke_result = Some (Skipped ''auto_nuke_disabled'')\<rparr>
   \<and> tier_of_trace (snd (invoke demo_swapped ())) = Critical
   \<and> classify_spec 60 100 50 = Critical"
proof -
  define r where "r = \<lparr>statusCode = 200, current_cost = 60, alert_threshold = 100,
         critical_threshold = 50, forecasted_cost = None, alert_sent = True,
         nuke_triggered = True,
         nuke_result = Some (Skipped ''auto_nuke_disabled'')\<rparr>"
  have run: "invoke demo_swapped () = (Inr r, snd (invoke demo_swapped ()))"
    using demo_swapped_run by (simp add: prod_eq_iff r_def)
  from tier_classification [OF run]
  have "tier_of_trace (snd (invoke demo_swapped ())) = classify_spec 60 100 50"
    by (simp add: r_def)
  with run show ?thesis
    by (simp add: prod_eq_iff r_def classify_spec_def)
qed

subsection \<open>No action outside the execute path\<close>

text \<open>
  Claim C2. When the safety gate does not resolve to execute (\<^verbatim>\<open>ENABLE_AUTO_NUKE\<close> is not
  true, or \<^verbatim>\<open>NUKE_DRY_RUN\<close> is true), an invocation makes no call that stops an instance,
  deletes a gateway or stops a database, whatever its outcome: its trace holds reads of the
  environment, cost queries, inventory listings and notifications only. The same holds of
  \<^verbatim>\<open>execute_resource_nuke\<close> alone, from any state.
\<close>

theorem no_mutation_unless_execute:
  assumes "\<not> (enable_nuke P \<and> \<not> dry_run P)"
  shows "filter is_mutating (snd (invoke P w)) = []
     \<and> list_all (\<lambda>e. is_env_read e \<or> is_cost_query e \<or> is_inventory e \<or> is_notification e)
                 (snd (invoke P w))
     \<and> (\<exists>evs. trace (snd (execute_resource_nuke P s)) = trace s @ evs
            \<and> list_all (\<lambda>e. is_env_read e \<or> is_inventory e \<or> is_notification e) evs
            \<and> filter is_mutating evs = [])"
proof -
  have nuke: "\<exists>evs. trace s' = trace s0 @ evs
            \<and> list_all (\<lambda>e. is_env_read e \<or> is_inventory e \<or> is_notification e) evs
            \<and> list_all (\<lambda>e. is_env_read e \<or> is_cost_query e \<or> is_inventory e \<or> is_notification e) evs"
    if "execute_resource_nuke P s0 = (result, s')" for s0 result s'
  proof -
    from execute_resource_nuke_gated [OF assms that] obtain evs
      where t: "trace s' = trace s0 @ evs"
        and ro: "list_all (\<lambda>e. is_env_read e \<or> is_inventory e \<or> is_notification e) evs"
      by blast
    from ro have "list_all (\<lambda>e. is_env_read e \<or> is_cost_query e \<or> is_inventory e \<or> is_notification e) evs"
      by (rule list_all_weaken) blast
    with t ro show ?thesis by blast
  qed
  have all: "list_all (\<lambda>e. is_env_read e \<or> is_cost_query e \<or> is_inventory e \<or> is_notification e)
                 (snd (invoke P w))"
  proof (cases "invoke P w")
    case (Pair res t)
    show ?thesis
    proof (cases res)
      case (Inl e)
      with Pair have "invoke P w = (Inl e, t)" by simp
      from invoke_raises [OF this] Pair show ?thesis by auto
    next
      case (Inr r)
      with Pair have run: "invoke P w = (Inr r, t)" by simp
      then have "list_all (\<lambda>e. is_env_read e \<or> is_cost_query e \<or> is_inventory e \<or> is_notification e) t"
      proof (cases rule: invoke_cases)
        case (critical a b c d results fr inv req res result s1 s')
        from nuke [OF critical(9)] obtain evs
          where "trace s' = trace s1 @ evs"
            and "list_all (\<lambda>e. is_env_read e \<or> is_cost_query e \<or> is_inventory e \<or> is_notification e) evs"
          by blast
        moreover from critical(6)
        have "list_all (\<lambda>e. is_env_read e \<or> is_cost_query e \<or> is_inventory e \<or> is_notification e) inv"
          by (simp add: list_all_iff)
        ultimately show ?thesis
          using critical(5,10) by simp
      next
        case (alert a b c d results fr req res)
        then show ?thesis by simp
      next
        case (summary a b c d results fr req res)
        then show ?thesis by simp
      next
        case (quiet a b c d results fr)
        then show ?thesis by simp
      qed
      with Pair show ?thesis by simp
    qed
  qed
  obtain result s' where ex: "execute_resource_nuke P s = (result, s')"
    by (cases "execute_resource_nuke P s")
  from nuke [OF ex] obtain evs
    where "trace s' = trace s @ evs"
      and "list_all (\<lambda>e. is_env_read e \<or> is_inventory e \<or> is_notification e) evs"
      and "list_all (\<lambda>e. is_env_read e \<or> is_cost_query e \<or> is_inventory e \<or> is_notification e) evs"
    by blast
  with ex have "\<exists>evs. trace (snd (execute_resource_nuke P s)) = trace s @ evs
            \<and> list_all (\<lambda>e. is_env_read e \<or> is_inventory e \<or> is_notification e) evs
            \<and> filter is_mutating evs = []"
    using read_only_not_mutating by auto
  with all read_only_not_mutating [OF all] show ?thesis by blast
qed

theorem no_mutation_unless_execute_witness:
  "enable_nuke demo_dry_run \<and> dry_run demo_dry_run
   \<and> fst (invoke demo_dry_run ()) = Inr \<lparr>statusCode = 200, current_cost = 60, alert_threshold = 10,
         critical_threshold = 50, forecasted_cost = None, alert_sent = True,
         nuke_triggered = True,
         nuke_result = Some (DryRun [''EC2 Instances: 2'', ''RDS Instances: 1'', ''NAT Gateways: 3''])\<rparr>
   \<and> filter is_mutating (snd (invoke demo_dry_run ())) = []
   \<and> length (filter is_inventory (snd (invoke demo_dry_run ()))) = 10
   \<and> length (filter is_notification (snd (invoke demo_dry_run ()))) = 2"
proof -
  have gate: "enable_nuke demo_dry_run" "dry_run demo_dry_run"
    by (simp_all add: enable_nuke_def dry_run_def environ_value_def demo_dry_run_def demo_def
          lower_def lower_char_def)
  then have "\<not> (enable_nuke demo_dry_run \<and> \<not> dry_run demo_dry_run)" by simp
  from no_mutation_unless_execute [OF this, of "()"]
  have "filter is_mutating (snd (invoke demo_dry_run ())) = []" by blast
  moreover have "length (filter is_inventory (snd (invoke demo_dry_run ()))) = 10
     \<and> length (filter is_notification (snd (invoke demo_dry_run ()))) = 2"
    by (simp add: run_defs demo_dry_run_def demo_def)
  ultimately show ?thesis
    using gate demo_dry_run_run by simp
qed

subsection \<open>The action gate\<close>

text \<open>
  Claim C3. \<^verbatim>\<open>execute_resource_nuke\<close> follows the decision table of the gate. When
  \<^verbatim>\<open>ENABLE_AUTO_NUKE\<close> is not true, whatever \<^verbatim>\<open>NUKE_DRY_RUN\<close> says, it returns the
  skipped result and hands one notification to the transport, titled
  \<^verbatim>\<open>Nuke Skipped - Manual Action Required\<close>, whose text begins \<^verbatim>\<open>Auto-nuke is DISABLED.\<close>
  and tells how to enable it. When it is true and \<^verbatim>\<open>NUKE_DRY_RUN\<close> is true, the result is
  the dry run; when it is true and \<^verbatim>\<open>NUKE_DRY_RUN\<close> is not, the result is the executed
  one.
\<close>

theorem action_gate_decision_table:
  assumes "execute_resource_nuke P s = (result, s')"
  shows "(\<not> enable_nuke P \<longrightarrow>
            result = Skipped ''auto_nuke_disabled''
          \<and> (\<exists>req res. trace s' = trace s @ [GetEnv ''ENABLE_AUTO_NUKE'', GetEnv ''NUKE_DRY_RUN'',
                                              GetEnv ''NTFY_TOPIC'', GetEnv ''NTFY_SERVER'',
                                              GetEnv ''NTFY_TOKEN'', UrlOpen req res]
                \<and> map_of (headers req) ''Title'' = Some ''Nuke Skipped - Manual Action Required''
                \<and> data req = skipped_message
                \<and> prefix ''Auto-nuke is DISABLED.'' (data req)))
     \<and> (enable_nuke P \<and> dry_run P \<longrightarrow> (\<exists>resources. result = DryRun resources))
     \<and> (enable_nuke P \<and> \<not> dry_run P \<longrightarrow> (\<exists>terminated errors. result = Executed terminated errors))"
proof (intro conjI impI)
  assume off: "\<not> enable_nuke P"
  from execute_resource_nuke_skip [OF off assms]
  show "result = Skipped ''auto_nuke_disabled''" by blast
  from execute_resource_nuke_skip [OF off assms] obtain req res
    where "trace s' = trace s @ [GetEnv ''ENABLE_AUTO_NUKE'', GetEnv ''NUKE_DRY_RUN'', GetEnv ''NTFY_TOPIC'',
                                         GetEnv ''NTFY_SERVER'', GetEnv ''NTFY_TOKEN'', UrlOpen req res]"
      and "map_of (headers req) ''Title'' = Some ''Nuke Skipped - Manual Action Required''"
      and d: "data req = skipped_message"
    by blast
  moreover have "prefix ''Auto-nuke is DISABLED.'' skipped_message"
    by (simp add: skipped_message_def nl_def)
  ultimately show "\<exists>req res. trace s' = trace s @ [GetEnv ''ENABLE_AUTO_NUKE'', GetEnv ''NUKE_DRY_RUN'',
                                              GetEnv ''NTFY_TOPIC'', GetEnv ''NTFY_SERVER'',
                                              GetEnv ''NTFY_TOKEN'', UrlOpen req res]
                \<and> map_of (headers req) ''Title'' = Some ''Nuke Skipped - Manual Action Required''
                \<and> data req = skipped_message
                \<and> prefix ''Auto-nuke is DISABLED.'' (data req)"
    by auto
next
  assume "enable_nuke P \<and> dry_run P"
  then have "enable_nuke P" "dry_run P" by simp_all
  from execute_resource_nuke_dry_run [OF this assms]
  show "\<exists>resources. result = DryRun resources" by blast
next
  assume "enable_nuke P \<and> \<not> dry_run P"
  then have "enable_nuke P" "\<not> dry_run P" by simp_all
  from execute_resource_nuke_execute [OF this assms]
  show "\<exists>terminated errors. result = Executed terminated errors" by blast
qed

theorem action_gate_decision_table_witness:
  "\<not> enable_nuke demo
   \<and> fst (execute_resource_nuke demo \<lparr>world = (), trace = []\<rparr>) = Skipped ''auto_nuke_disabled''
   \<and> enable_nuke demo_dry_run \<and> dry_run demo_dry_run
   \<and> status (fst (execute_resource_nuke demo_dry_run \<lparr>world = (), trace = []\<rparr>)) = ''dry_run''
   \<and> enable_nuke demo_execute \<and> \<not> dry_run demo_execute
   \<and> status (fst (execute_resource_nuke demo_execute \<lparr>world = (), trace = []\<rparr>)) = ''executed''"
proof -
  have g1: "\<not> enable_nuke demo"
    by (simp add: enable_nuke_def environ_value_def demo_def lower_def lower_char_def)
  have g2: "enable_nuke demo_dry_run \<and> dry_run demo_dry_run"
    by (simp add: enable_nuke_def dry_run_def environ_value_def demo_dry_run_def demo_def
          lower_def lower_char_def)
  have g3: "enable_nuke demo_execute \<and> \<not> dry_run demo_execute"
    by (simp add: enable_nuke_def dry_run_def environ_value_def demo_execute_def demo_def
          lower_def lower_char_def)
  have r1: "fst (execute_resource_nuke demo \<lparr>world = (), trace = []\<rparr>) = Skipped ''auto_nuke_disabled''"
    using g1 action_gate_decision_table [OF surjective_pairing, of demo "\<lparr>world = (), trace = []\<rparr>"]
    by blast
  have "\<exists>resources. fst (execute_resource_nuke demo_dry_run \<lparr>world = (), trace = []\<rparr>) = DryRun resources"
    using g2 action_gate_decision_table [OF surjective_pairing, of demo_dry_run "\<lparr>world = (), trace = []\<rparr>"]
    by blast
  then have r2: "status (fst (execute_resource_nuke demo_dry_run \<lparr>world = (), trace = []\<rparr>)) = ''dry_run''"
    by auto
  have "\<exists>terminated errors. fst (execute_resource_nuke demo_execute \<lparr>world = (), trace = []\<rparr>)
          = Executed terminated errors"
    using g3 action_gate_decision_table [OF surjective_pairing, of demo_execute "\<lparr>world = (), trace = []\<rparr>"]
    by blast
  then have r3: "status (fst (execute_resource_nuke demo_execute \<lparr>world = (), trace = []\<rparr>)) = ''executed''"
    by auto
  from g1 g2 g3 r1 r2 r3 show ?thesis by blast
qed

subsection \<open>The warning comes first\<close>

text \<open>
  Claim C4. In every invocation that reaches the critical tier, the emergency warning is
  handed to the transport before the gate is read and before any stop or delete call:
  the trace splits into a part with no notification, no read of \<^verbatim>\<open>ENABLE_AUTO_NUKE\<close> or
  \<^verbatim>\<open>NUKE_DRY_RUN\<close> and no action, then the warning, then a part in which the gate is
  read. Nothing is assumed about the gate, so this holds for each of its outcomes.
\<close>

theorem warning_before_gate_and_action:
  assumes "invoke P w = (Inr r, t)" and "critical_threshold r \<le> current_cost r"
  shows "\<exists>before req res after.
       t = before @ UrlOpen req res # after
     \<and> map_of (headers req) ''Title'' = Some ''CRITICAL: AWS Cost Emergency''
     \<and> map_of (headers req) ''Priority'' = Some ''urgent''
     \<and> list_all (\<lambda>e. \<not> is_notification e \<and> \<not> is_gate_read e \<and> \<not> is_mutating e) before
     \<and> list_ex is_gate_read after"
  using assms(1)
proof (cases rule: invoke_cases)
  case (critical a b c d results fr inv req res result s1 s')
  from execute_resource_nuke_extends [OF critical(9)] obtain evs
    where ext: "trace s' = trace s1 @ GetEnv ''ENABLE_AUTO_NUKE'' # evs"
    by blast
  define before where "before = [GetEnv ''ALERT_THRESHOLD'', GetEnv ''CRITICAL_THRESHOLD'', GetEnv ''NTFY_TOPIC'',
                   GetCostAndUsage a b (Inr results), GetCostForecast c d fr]
                  @ GetEnv ''NTFY_TOPIC'' # inv @ [GetEnv ''NTFY_SERVER'', GetEnv ''NTFY_TOKEN'']"
  have inv: "list_all (\<lambda>e. \<not> is_notification e \<and> \<not> is_gate_read e \<and> \<not> is_mutating e) inv"
    unfolding list_all_iff
  proof
    fix e assume "e \<in> set inv"
    with critical(6) have "is_inventory e" by blast
    then show "\<not> is_notification e \<and> \<not> is_gate_read e \<and> \<not> is_mutating e"
      by (cases e) simp_all
  qed
  have "t = before @ UrlOpen req res # GetEnv ''ENABLE_AUTO_NUKE'' # evs"
    using critical(5,10) ext by (simp add: before_def)
  moreover have "list_all (\<lambda>e. \<not> is_notification e \<and> \<not> is_gate_read e \<and> \<not> is_mutating e) before"
    using inv by (simp add: before_def)
  moreover have "list_ex is_gate_read (GetEnv ''ENABLE_AUTO_NUKE'' # evs)"
    by simp
  ultimately show ?thesis
    using critical(7,8) by blast
next
  case (alert a b c d results fr req res)
  with assms(2) show ?thesis by simp
next
  case (summary a b c d results fr req res)
  with assms(2) show ?thesis by simp
next
  case (quiet a b c d results fr)
  with assms(2) show ?thesis by simp
qed

theorem warning_before_gate_and_action_witness:
  "fst (invoke demo_execute ()) = Inr \<lparr>statusCode = 200, current_cost = 60, alert_threshold = 10,
         critical_threshold = 50, forecasted_cost = None, alert_sent = True,
         nuke_triggered = True,
         nuke_result = Some (Executed [''Deleted NAT Gateway: nat-1'']
              [''EC2: UnauthorizedOperation'', ''NAT Gateway: DependencyViolation''])\<rparr>
   \<and> (50::real) \<le> 60
   \<and> (\<exists>before req res after.
         snd (invoke demo_execute ()) = before @ UrlOpen req res # after
       \<and> map_of (headers req) ''Title'' = Some ''CRITICAL: AWS Cost Emergency''
       \<and> map_of (headers req) ''Priority'' = Some ''urgent''
       \<and> list_all (\<lambda>e. \<not> is_notification e \<and> \<not> is_gate_read e \<and> \<not> is_mutating e) before
       \<and> list_ex is_gate_read after)"
proof -
  define r where "r = \<lparr>statusCode = 200, current_cost = 60, alert_threshold = 10,
         critical_threshold = 50, forecasted_cost = None, alert_sent = True,
         nuke_triggered = True,
         nuke_result = Some (Executed [''Deleted NAT Gateway: nat-1'']
              [''EC2: UnauthorizedOperation'', ''NAT Gateway: DependencyViolation''])\<rparr>"
  have run: "invoke demo_execute () = (Inr r, snd (invoke demo_execute ()))"
    using demo_execute_run by (simp add: prod_eq_iff r_def)
  have crit: "critical_threshold r \<le> current_cost r"
    by (simp add: r_def)
  from warning_before_gate_and_action [OF run crit] demo_execute_run
  show ?thesis by simp
qed

subsection \<open>What the report says\<close>




subsection \<open>The three categories of the execute path\<close>



subsection \<open>What the report records\<close>

text \<open>
  Claim C7 says that every attempted stop or delete adds an entry to one of the two lists
  of the report, a database stop that the database rejects included. The source does
  otherwise for that last case, on purpose: the inner handler of lines 312 and 313 passes,
  with the comment that some RDS types cannot be stopped. On the example with one
  available database that rejects the stop, the stop is attempted and both lists stay
  empty.
\<close>

theorem rejected_database_stop_unrecorded:
  "fst (execute_resource_nuke demo_database_only \<lparr>world = (), trace = []\<rparr>) = Executed [] []
   \<and> filter is_mutating (trace (snd (execute_resource_nuke demo_database_only \<lparr>world = (), trace = []\<rparr>)))
       = [StopDbInstance ''db-1'' (Inl ''InvalidDBInstanceState'')]"
  by (simp add: run_defs demo_database_only_def demo_execute_def demo_def)

text \<open>
  Claim C7, amended. On the execute path the report is read off the calls made, in their
  order: \<^verbatim>\<open>terminated\<close> holds one entry for each stop or delete call that succeeded, and
  \<^verbatim>\<open>errors\<close> one entry for each failed call of the EC2 and NAT gateway blocks (listing,
  stop or delete) and for a failed listing of the databases. So every attempted stop or
  delete is in one of the two lists, except a database stop that fails, which is in
  neither.
\<close>

theorem report_lists_attempts:
  assumes "enable_nuke P" and "\<not> dry_run P" and "execute_resource_nuke P s = (result, s')"
  shows "\<exists>evs. trace s' = trace s @ evs
     \<and> result = Executed (List.map_filter succeeded_line evs) (List.map_filter failed_line evs)
     \<and> (\<forall>e. is_mutating e \<longrightarrow> succeeded_line e \<noteq> None \<or> failed_line e \<noteq> None
                                \<or> (\<exists>i m. e = StopDbInstance i (Inl m)))
     \<and> (\<forall>i m. succeeded_line (StopDbInstance i (Inl m)) = None
              \<and> failed_line (StopDbInstance i (Inl m)) = None)"
proof -
  from execute_resource_nuke_execute [OF assms] obtain r1 ec2 r2 nat r3 rds req res
    where tr: "trace s' = trace s @ [GetEnv ''ENABLE_AUTO_NUKE'', GetEnv ''NUKE_DRY_RUN'', GetEnv ''NTFY_TOPIC'']
                   @ (DescribeInstances [''running''] r1 # ec2)
                   @ (DescribeNatGateways [''available''] r2 # nat)
                   @ (DescribeDbInstances r3 # rds)
                   @ [GetEnv ''NTFY_SERVER'', GetEnv ''NTFY_TOKEN'', UrlOpen req res]"
      and res: "result = Executed
          (List.map_filter succeeded_line
             ((DescribeInstances [''running''] r1 # ec2) @ (DescribeNatGateways [''available''] r2 # nat)
               @ (DescribeDbInstances r3 # rds)))
          (List.map_filter failed_line
             ((DescribeInstances [''running''] r1 # ec2) @ (DescribeNatGateways [''available''] r2 # nat)
               @ (DescribeDbInstances r3 # rds)))"
    by blast
  define mid where "mid = (DescribeInstances [''running''] r1 # ec2)
      @ (DescribeNatGateways [''available''] r2 # nat) @ (DescribeDbInstances r3 # rds)"
  define evs where "evs = [GetEnv ''ENABLE_AUTO_NUKE'', GetEnv ''NUKE_DRY_RUN'', GetEnv ''NTFY_TOPIC'']
      @ mid @ [GetEnv ''NTFY_SERVER'', GetEnv ''NTFY_TOKEN'', UrlOpen req res]"
  have tr': "trace s' = trace s @ evs"
    using tr by (simp add: evs_def mid_def)
  have "List.map_filter succeeded_line evs = List.map_filter succeeded_line mid"
    and "List.map_filter failed_line evs = List.map_filter failed_line mid"
    by (simp_all add: evs_def map_filter_append List.map_filter_simps)
  with res have res': "result = Executed (List.map_filter succeeded_line evs) (List.map_filter failed_line evs)"
    by (simp add: mid_def)
  have cover: "\<forall>e. is_mutating e \<longrightarrow> succeeded_line e \<noteq> None \<or> failed_line e \<noteq> None
                                \<or> (\<exists>i m. e = StopDbInstance i (Inl m))"
  proof (intro allI impI)
    fix e assume "is_mutating e"
    then show "succeeded_line e \<noteq> None \<or> failed_line e \<noteq> None \<or> (\<exists>i m. e = StopDbInstance i (Inl m))"
    proof (cases e)
      case (StopInstances ids outcome)
      then show ?thesis by (cases outcome) simp_all
    next
      case (DeleteNatGateway i outcome)
      then show ?thesis by (cases outcome) simp_all
    next
      case (StopDbInstance i outcome)
      then show ?thesis by (cases outcome) simp_all
    qed simp_all
  qed
  from tr' res' cover show ?thesis by auto
qed

theorem report_lists_attempts_witness:
  "enable_nuke demo_execute \<and> \<not> dry_run demo_execute
   \<and> fst (execute_resource_nuke demo_execute \<lparr>world = (), trace = []\<rparr>)
       = Executed
           (List.map_filter succeeded_line
              (trace (snd (execute_resource_nuke demo_execute \<lparr>world = (), trace = []\<rparr>))))
           (List.map_filter failed_line
              (trace (snd (execute_resource_nuke demo_execute \<lparr>world = (), trace = []\<rparr>))))
   \<and> fst (execute_resource_nuke demo_execute \<lparr>world = (), trace = []\<rparr>)
       = Executed [''Deleted NAT Gateway: nat-1'']
           [''EC2: UnauthorizedOperation'', ''NAT Gateway: DependencyViolation'']"
proof -
  have gate: "enable_nuke demo_execute" "\<not> dry_run demo_execute"
    by (simp_all add: enable_nuke_def dry_run_def environ_value_def demo_execute_def demo_def
          lower_def lower_char_def)
  from report_lists_attempts [OF gate surjective_pairing, of "\<lparr>world = (), trace = []\<rparr>"]
  have "fst (execute_resource_nuke demo_execute \<lparr>world = (), trace = []\<rparr>)
       = Executed
           (List.map_filter succeeded_line
              (trace (snd (execute_resource_nuke demo_execute \<lparr>world = (), trace = []\<rparr>))))
           (List.map_filter failed_line
              (trace (snd (execute_resource_nuke demo_execute \<lparr>world = (), trace = []\<rparr>))))"
    by (elim exE conjE) simp
  moreover have "fst (execute_resource_nuke demo_execute \<lparr>world = (), trace = []\<rparr>)
       = Executed [''Deleted NAT Gateway: nat-1'']
           [''EC2: UnauthorizedOperation'', ''NAT Gateway: DependencyViolation'']"
    by (simp add: run_defs demo_execute_def demo_def)
  ultimately show ?thesis
    using gate by simp
qed

subsection \<open>The top services\<close>

lemma listed_services_example:
  "listed_services example_breakdown 5 = [(''A'', 40), (''B'', 35), (''D'', 20), (''E'', 10), (''F'', 5)]"
  by (simp add: listed_services_def sorted_services_def slice_to_def example_breakdown_def)

lemma sorted_services_sorted:
  "sorted_wrt (\<lambda>x y. snd x \<ge> snd y) (sorted_services breakdown top_n)"
proof -
  have "sorted (map (\<lambda>x. - snd x) (sort_key (\<lambda>x. - snd x) breakdown))"
    by (rule sorted_sort_key)
  then have "sorted_wrt (\<lambda>x y. snd x \<ge> snd y) (sort_key (\<lambda>x. - snd x) breakdown)"
    by (simp add: sorted_wrt_map)
  then show ?thesis
    by (simp add: sorted_services_def slice_to_def sorted_wrt_take)
qed

lemma listed_services_sorted:
  "sorted_wrt (\<lambda>x y. snd x \<ge> snd y) (listed_services breakdown top_n)"
  unfolding listed_services_def by (rule sorted_wrt_filter) (rule sorted_services_sorted)

lemma listed_services_cutoff:
  "\<forall>(service, cost) \<in> set (listed_services breakdown top_n). cost > 0.01"
  by (auto simp: listed_services_def)

text \<open>
  Claim C8. On the breakdown A:40, B:35, C:0.001, D:20, E:10, F:5 the formatter lists
  A, B, D, E, F in this order, one line each, and leaves C out. For every breakdown and
  every \<open>top_n\<close>, each listed service costs more than 0.01, the listed services are in
  descending order of cost, and the text is one line per listed service (or the
  placeholder when none is listed).
\<close>

theorem format_top_services_listing:
  "listed_services example_breakdown 5 = [(''A'', 40), (''B'', 35), (''D'', 20), (''E'', 10), (''F'', 5)]
   \<and> format_top_services P example_breakdown 5 =
       str_join nl [''  - A: $'' @ py_fmt2 P 40, ''  - B: $'' @ py_fmt2 P 35, ''  - D: $'' @ py_fmt2 P 20,
                    ''  - E: $'' @ py_fmt2 P 10, ''  - F: $'' @ py_fmt2 P 5]
   \<and> (\<forall>(service, cost) \<in> set (listed_services breakdown top_n). cost > 0.01)
   \<and> sorted_wrt (\<lambda>x y. snd x \<ge> snd y) (listed_services breakdown top_n)
   \<and> format_top_services P breakdown top_n =
       (if listed_services breakdown top_n = [] then ''  (No significant costs yet)''
        else str_join nl (map (\<lambda>(service, cost). ''  - '' @ service @ '': $'' @ py_fmt2 P cost)
                              (listed_services breakdown top_n)))"
proof (intro conjI)
  show "listed_services example_breakdown 5 = [(''A'', 40), (''B'', 35), (''D'', 20), (''E'', 10), (''F'', 5)]"
    by (rule listed_services_example)
  show "format_top_services P example_breakdown 5 =
       str_join nl [''  - A: $'' @ py_fmt2 P 40, ''  - B: $'' @ py_fmt2 P 35, ''  - D: $'' @ py_fmt2 P 20,
                    ''  - E: $'' @ py_fmt2 P 10, ''  - F: $'' @ py_fmt2 P 5]"
    by (simp add: format_top_services_def listed_services_example)
  show "\<forall>(service, cost) \<in> set (listed_services breakdown top_n). cost > 0.01"
    by (rule listed_services_cutoff)
  show "sorted_wrt (\<lambda>x y. snd x \<ge> snd y) (listed_services breakdown top_n)"
    by (rule listed_services_sorted)
  show "format_top_services P breakdown top_n =
       (if listed_services breakdown top_n = [] then ''  (No significant costs yet)''
        else str_join nl (map (\<lambda>(service, cost). ''  - '' @ service @ '': $'' @ py_fmt2 P cost)
                              (listed_services breakdown top_n)))"
    by (simp add: format_top_services_def)
qed

theorem format_top_services_listing_witness:
  "(''F'', 5) \<in> set (listed_services example_breakdown 5)
   \<and> (''C'', 0.001) \<notin> set (listed_services example_breakdown 5)
   \<and> list_all (\<lambda>(service, cost). cost > 0.01) (listed_services example_breakdown 5)
   \<and> sorted_wrt (\<lambda>x y. snd x \<ge> snd y) (listed_services example_breakdown 5)"
  using format_top_services_listing [of demo example_breakdown 5] by (simp add: list_all_iff)

subsection \<open>Deletions inside the gateway block\<close>

text \<open>
  Claim C9. Inside the NAT gateway block the deletions are not isolated from each other.
  When a deletion fails on the execute path, the gateways listed split into those before
  it, the failing one and the rest; the deletions attempted are exactly those before it,
  all successful, and the failing one, so the rest is not attempted. The deletions before
  it stay in \<^verbatim>\<open>terminated\<close>, and the failure is in \<^verbatim>\<open>errors\<close>.
\<close>

theorem nat_deletions_stop_at_first_failure:
  assumes "enable_nuke P" and "\<not> dry_run P" and "execute_resource_nuke P s = (result, s')"
    and "trace s' = trace s @ evs" and "DeleteNatGateway g (Inl e) \<in> set evs"
  shows "\<exists>before rest terminated errors.
       DescribeNatGateways [''available''] (Inr (before @ g # rest)) \<in> set evs
     \<and> filter is_nat_delete evs
         = map (\<lambda>i. DeleteNatGateway i (Inr ())) before @ [DeleteNatGateway g (Inl e)]
     \<and> result = Executed terminated errors
     \<and> (\<forall>i \<in> set before. ''Deleted NAT Gateway: '' @ i \<in> set terminated)
     \<and> ''NAT Gateway: '' @ e \<in> set errors"
proof -
  from execute_resource_nuke_execute [OF assms(1,2,3)] obtain r1 ec2 r2 nat r3 rds req res
    where tr: "trace s' = trace s @ [GetEnv ''ENABLE_AUTO_NUKE'', GetEnv ''NUKE_DRY_RUN'', GetEnv ''NTFY_TOPIC'']
                   @ (DescribeInstances [''running''] r1 # ec2)
                   @ (DescribeNatGateways [''available''] r2 # nat)
                   @ (DescribeDbInstances r3 # rds)
                   @ [GetEnv ''NTFY_SERVER'', GetEnv ''NTFY_TOKEN'', UrlOpen req res]"
      and sh1: "(\<exists>e. r1 = Inl e \<and> ec2 = [])
        \<or> (\<exists>reservations. r1 = Inr reservations \<and> concat reservations = [] \<and> ec2 = [])
        \<or> (\<exists>reservations res. r1 = Inr reservations \<and> concat reservations \<noteq> []
              \<and> ec2 = [StopInstances (concat reservations) res])"
      and sh2: "(\<exists>e. r2 = Inl e \<and> nat = [])
        \<or> (\<exists>gws. r2 = Inr gws \<and> nat = map (\<lambda>i. DeleteNatGateway i (Inr ())) gws)
        \<or> (\<exists>before g rest e. r2 = Inr (before @ g # rest)
              \<and> nat = map (\<lambda>i. DeleteNatGateway i (Inr ())) before @ [DeleteNatGateway g (Inl e)])"
      and sh3: "(\<exists>e. r3 = Inl e \<and> rds = [])
        \<or> (\<exists>dbs results. r3 = Inr dbs \<and> length results = length (available_ids dbs)
              \<and> rds = map2 StopDbInstance (available_ids dbs) results)"
      and res: "result = Executed
          (List.map_filter succeeded_line
             ((DescribeInstances [''running''] r1 # ec2) @ (DescribeNatGateways [''available''] r2 # nat)
               @ (DescribeDbInstances r3 # rds)))
          (List.map_filter failed_line
             ((DescribeInstances [''running''] r1 # ec2) @ (DescribeNatGateways [''available''] r2 # nat)
               @ (DescribeDbInstances r3 # rds)))"
    by blast
  have evs: "evs = [GetEnv ''ENABLE_AUTO_NUKE'', GetEnv ''NUKE_DRY_RUN'', GetEnv ''NTFY_TOPIC'']
                   @ (DescribeInstances [''running''] r1 # ec2)
                   @ (DescribeNatGateways [''available''] r2 # nat)
                   @ (DescribeDbInstances r3 # rds)
                   @ [GetEnv ''NTFY_SERVER'', GetEnv ''NTFY_TOKEN'', UrlOpen req res]"
    using tr assms(4) by simp
  have f1: "filter is_nat_delete ec2 = []"
    using sh1 by auto
  have f3: "filter is_nat_delete rds = []"
    using sh3 by (auto intro!: filter_none dest: stop_db_events)
  have f2: "filter is_nat_delete nat = nat"
    using sh2 by (auto intro!: filter_id)
  have dels: "filter is_nat_delete evs = nat"
    using f1 f2 f3 by (simp add: evs)
  from assms(5) have "DeleteNatGateway g (Inl e) \<in> set (filter is_nat_delete evs)"
    by simp
  with dels have mem: "DeleteNatGateway g (Inl e) \<in> set nat"
    by simp
  from sh2 mem obtain before rest
    where r2: "r2 = Inr (before @ g # rest)"
      and nat: "nat = map (\<lambda>i. DeleteNatGateway i (Inr ())) before @ [DeleteNatGateway g (Inl e)]"
    by auto
  define terminated where "terminated = List.map_filter succeeded_line
             ((DescribeInstances [''running''] r1 # ec2) @ (DescribeNatGateways [''available''] r2 # nat)
               @ (DescribeDbInstances r3 # rds))"
  define errors where "errors = List.map_filter failed_line
             ((DescribeInstances [''running''] r1 # ec2) @ (DescribeNatGateways [''available''] r2 # nat)
               @ (DescribeDbInstances r3 # rds))"
  have d: "DescribeNatGateways [''available''] (Inr (before @ g # rest)) \<in> set evs"
    using r2 by (simp add: evs)
  have t: "\<forall>i \<in> set before. ''Deleted NAT Gateway: '' @ i \<in> set terminated"
  proof
    fix i assume "i \<in> set before"
    then have "DeleteNatGateway i (Inr ()) \<in> set nat"
      by (simp add: nat)
    then have "\<exists>x \<in> set ((DescribeInstances [''running''] r1 # ec2) @ (DescribeNatGateways [''available''] r2 # nat)
               @ (DescribeDbInstances r3 # rds)). succeeded_line x = Some (''Deleted NAT Gateway: '' @ i)"
      by (intro bexI [of _ "DeleteNatGateway i (Inr ())"]) simp_all
    then show "''Deleted NAT Gateway: '' @ i \<in> set terminated"
      unfolding terminated_def set_map_filter by simp
  qed
  have er: "''NAT Gateway: '' @ e \<in> set errors"
  proof -
    have "\<exists>x \<in> set ((DescribeInstances [''running''] r1 # ec2) @ (DescribeNatGateways [''available''] r2 # nat)
               @ (DescribeDbInstances r3 # rds)). failed_line x = Some (''NAT Gateway: '' @ e)"
      using mem by (intro bexI [of _ "DeleteNatGateway g (Inl e)"]) simp_all
    then show ?thesis
      unfolding errors_def set_map_filter by simp
  qed
  from res have "result = Executed terminated errors"
    by (simp add: terminated_def errors_def)
  with d dels nat t er show ?thesis by blast
qed

theorem nat_deletions_stop_at_first_failure_witness:
  "enable_nuke demo_execute \<and> \<not> dry_run demo_execute
   \<and> DeleteNatGateway ''nat-2'' (Inl ''DependencyViolation'')
       \<in> set (trace (snd (execute_resource_nuke demo_execute \<lparr>world = (), trace = []\<rparr>)))
   \<and> DescribeNatGateways [''available''] (Inr [''nat-1'', ''nat-2'', ''nat-3''])
       \<in> set (trace (snd (execute_resource_nuke demo_execute \<lparr>world = (), trace = []\<rparr>)))
   \<and> filter is_nat_delete (trace (snd (execute_resource_nuke demo_execute \<lparr>world = (), trace = []\<rparr>)))
       = [DeleteNatGateway ''nat-1'' (Inr ()), DeleteNatGateway ''nat-2'' (Inl ''DependencyViolation'')]
   \<and> (\<exists>before rest. filter is_nat_delete
          (trace (snd (execute_resource_nuke demo_execute \<lparr>world = (), trace = []\<rparr>)))
        = map (\<lambda>i. DeleteNatGateway i (Inr ())) before @ [DeleteNatGateway ''nat-2'' (Inl ''DependencyViolation'')]
        \<and> DescribeNatGateways [''available''] (Inr (before @ ''nat-2'' # rest))
           \<in> set (trace (snd (execute_resource_nuke demo_execute \<lparr>world = (), trace = []\<rparr>))))"
proof -
  have gate: "enable_nuke demo_execute" "\<not> dry_run demo_execute"
    by (simp_all add: enable_nuke_def dry_run_def environ_value_def demo_execute_def demo_def
          lower_def lower_char_def)
  have tr: "trace (snd (execute_resource_nuke demo_execute \<lparr>world = (), trace = []\<rparr>))
      = trace \<lparr>world = (), trace = []\<rparr> @ trace (snd (execute_resource_nuke demo_execute \<lparr>world = (), trace = []\<rparr>))"
    by simp
  have mem: "DeleteNatGateway ''nat-2'' (Inl ''DependencyViolation'')
       \<in> set (trace (snd (execute_resource_nuke demo_execute \<lparr>world = (), trace = []\<rparr>)))"
    by (simp add: run_defs demo_execute_def demo_def)
  have d: "DescribeNatGateways [''available''] (Inr [''nat-1'', ''nat-2'', ''nat-3''])
       \<in> set (trace (snd (execute_resource_nuke demo_execute \<lparr>world = (), trace = []\<rparr>)))"
    by (simp add: run_defs demo_execute_def demo_def)
  have f: "filter is_nat_delete (trace (snd (execute_resource_nuke demo_execute \<lparr>world = (), trace = []\<rparr>)))
       = [DeleteNatGateway ''nat-1'' (Inr ()), DeleteNatGateway ''nat-2'' (Inl ''DependencyViolation'')]"
    by (simp add: run_defs demo_execute_def demo_def)
  from nat_deletions_stop_at_first_failure [OF gate surjective_pairing tr mem]
  have "\<exists>before rest. filter is_nat_delete
          (trace (snd (execute_resource_nuke demo_execute \<lparr>world = (), trace = []\<rparr>)))
        = map (\<lambda>i. DeleteNatGateway i (Inr ())) before @ [DeleteNatGateway ''nat-2'' (Inl ''DependencyViolation'')]
        \<and> DescribeNatGateways [''available''] (Inr (before @ ''nat-2'' # rest))
           \<in> set (trace (snd (execute_resource_nuke demo_execute \<lparr>world = (), trace = []\<rparr>)))"
    by blast
  with gate mem d f show ?thesis by blast
qed

subsection \<open>The status code\<close>

text \<open>
  Claim C10. Every invocation that returns a report returns it with \<^verbatim>\<open>statusCode\<close> 200,
  whatever the tier, the gate, the delivery of the notifications and the outcome of the
  actions.
\<close>

theorem handler_status_code:
  assumes "invoke P w = (Inr r, t)"
  shows "statusCode r = 200"
proof -
  obtain s' where "lambda_handler P \<lparr>world = w, trace = []\<rparr> = (Inr r, s')"
    using assms by (auto simp: invoke_def split: prod.splits)
  from lambda_handler_returns [OF this] show ?thesis by blast
qed

theorem handler_status_code_witness:
  "fst (invoke demo ()) = Inr \<lparr>statusCode = 200, current_cost = 60, alert_threshold = 10,
         critical_threshold = 50, forecasted_cost = None, alert_sent = True,
         nuke_triggered = True,
         nuke_result = Some (Skipped ''auto_nuke_disabled'')\<rparr>
   \<and> map_sum id statusCode (fst (invoke demo ())) = Inr 200"
proof -
  define r where "r = \<lparr>statusCode = 200, current_cost = 60, alert_threshold = 10,
         critical_threshold = 50, forecasted_cost = None, alert_sent = True,
         nuke_triggered = True,
         nuke_result = Some (Skipped ''auto_nuke_disabled'')\<rparr>"
  have run: "invoke demo () = (Inr r, snd (invoke demo ()))"
    using demo_skip_run by (simp add: prod_eq_iff r_def)
  have "statusCode r = 200"
    by (rule handler_status_code [OF run])
  with run show ?thesis
    by (simp add: prod_eq_iff r_def)
qed

end
